theory Spec2Isabelle
  imports Main
begin

section \<open>Values, exceptions and the world the server runs in\<close>

text \<open>
  The development embeds \<^verbatim>\<open>Server/server.py\<close>: the helper \<^verbatim>\<open>allowed_file\<close>, the format
  normaliser \<^verbatim>\<open>convert_webm_to_mp4\<close> and the request handler \<^verbatim>\<open>process_video_complete\<close>.
  Python strings are byte lists here; case mapping is the ASCII one.
\<close>

text \<open>JSON-like values: what \<^verbatim>\<open>jsonify\<close> can carry and what \<^verbatim>\<open>json.loads\<close> returns.
  Floating point numbers are not represented.\<close>

datatype json =
    JNull
  | JBool bool
  | JInt int
  | JStr string
  | JList "json list"
  | JDict "(string \<times> json) list"

text \<open>Exceptions, each carrying the text \<^verbatim>\<open>str(e)\<close> gives. All of them are subclasses of
  \<^verbatim>\<open>Exception\<close>.\<close>

datatype exn =
    CalledProcessError string
  | OSError string
  | JSONDecodeError string
  | AttributeError string
  | OtherError string

fun str_exn :: "exn \<Rightarrow> string" where
  "str_exn (CalledProcessError m) = m"
| "str_exn (OSError m) = m"
| "str_exn (JSONDecodeError m) = m"
| "str_exn (AttributeError m) = m"
| "str_exn (OtherError m) = m"

text \<open>Calls that leave the handler, in the order they are made.\<close>

datatype event =
    ConvertCalled string
  | EncoderRun "string list"
  | ExtractAudio string string
  | Transcribe string
  | AnalyzeAudio string string
  | AnalyzeVideo string
  | Gemini string string string string

type_synonym filesystem = "string \<rightharpoonup> string"

record world =
  files :: filesystem
  events :: "event list"

text \<open>
  Everything the source imports and does not define is a parameter: the collaborators of
  \<^verbatim>\<open>audio\<close>, \<^verbatim>\<open>video\<close> and \<^verbatim>\<open>gemini\<close>, the library functions \<^verbatim>\<open>secure_filename\<close>,
  \<^verbatim>\<open>tempfile.mkstemp\<close>, \<^verbatim>\<open>subprocess.run\<close>, \<^verbatim>\<open>json.loads\<close> and the built-in \<^verbatim>\<open>str\<close>, and
  the two imported constants. A collaborator's returned value (or raised exception) is a
  function of its arguments; the two collaborators that write files also have an effect on
  the file system. \<open>remove_fails p\<close> says that deleting the existing path \<open>p\<close> raises
  \<^verbatim>\<open>OSError\<close>.
\<close>

record env =
  secure_filename :: "string \<Rightarrow> string"
  mkstemp :: "string \<Rightarrow> string \<Rightarrow> filesystem \<Rightarrow> exn + string"
  encoder_exit :: "string list \<Rightarrow> exn + int"
  encoder_effect :: "string list \<Rightarrow> filesystem \<Rightarrow> filesystem"
  extract_audio :: "string \<Rightarrow> string \<Rightarrow> exn + bool"
  extract_audio_effect :: "string \<Rightarrow> string \<Rightarrow> filesystem \<Rightarrow> filesystem"
  transcribe_audio :: "string \<Rightarrow> exn + string option"
  analyze_audio_features :: "string \<Rightarrow> string \<Rightarrow> exn + (string \<times> json) list option"
  analyze_video_features :: "string \<Rightarrow> exn + (string \<times> json) list option"
  analyze_video_with_gemini ::
    "string \<Rightarrow> string \<Rightarrow> string \<Rightarrow> string \<Rightarrow> exn + (string \<rightharpoonup> string)"
  json_loads :: "string \<Rightarrow> exn + json"
  str_of :: "json \<Rightarrow> string"
  remove_fails :: "string \<Rightarrow> bool"
  GEMINI_API_KEY :: "string option"
  OUTPUT_AUDIO_FILENAME :: string

section \<open>String operations of Python used by the source\<close>

definition is_upper :: "char \<Rightarrow> bool" where
  "is_upper c = (let n = (of_char c :: nat) in 65 \<le> n \<and> n \<le> 90)"

definition is_lower :: "char \<Rightarrow> bool" where
  "is_lower c = (let n = (of_char c :: nat) in 97 \<le> n \<and> n \<le> 122)"

definition lower_char :: "char \<Rightarrow> char" where
  "lower_char c = (if is_upper c then char_of ((of_char c :: nat) + 32) else c)"

definition upper_char :: "char \<Rightarrow> char" where
  "upper_char c = (if is_lower c then char_of ((of_char c :: nat) - 32) else c)"

definition lower :: "string \<Rightarrow> string" where
  "lower s = map lower_char s"

text \<open>\<^verbatim>\<open>s.endswith(suf)\<close>\<close>

definition endswith :: "string \<Rightarrow> string \<Rightarrow> bool" where
  "endswith s suf = (length suf \<le> length s \<and> drop (length s - length suf) s = suf)"

text \<open>\<^verbatim>\<open>s.rsplit(c, 1)[1]\<close> for a string that contains \<open>c\<close>: the part after the last \<open>c\<close>.\<close>

definition rsplit1_snd :: "char \<Rightarrow> string \<Rightarrow> string" where
  "rsplit1_snd c s = rev (takeWhile (\<lambda>x. x \<noteq> c) (rev s))"

text \<open>\<^verbatim>\<open>s.replace(a, b)\<close> for one-character \<open>a\<close> and \<open>b\<close>.\<close>

definition replace_char :: "char \<Rightarrow> char \<Rightarrow> string \<Rightarrow> string" where
  "replace_char a b s = map (\<lambda>c. if c = a then b else c) s"

text \<open>\<^verbatim>\<open>s.title()\<close>: a cased character is upper-cased when the character before it is
  not cased (or there is none), lower-cased otherwise.\<close>

fun title_from :: "bool \<Rightarrow> string \<Rightarrow> string" where
  "title_from prev [] = []"
| "title_from prev (c # cs) =
     (if is_lower c \<or> is_upper c
      then (if prev then lower_char c else upper_char c) # title_from True cs
      else c # title_from False cs)"

definition title :: "string \<Rightarrow> string" where
  "title s = title_from False s"

text \<open>\<^verbatim>\<open>s.find(c)\<close> and \<^verbatim>\<open>s.rfind(c)\<close>: the first and the last index of \<open>c\<close>, or \<open>-1\<close>.\<close>

fun find_from :: "char \<Rightarrow> string \<Rightarrow> int \<Rightarrow> int" where
  "find_from c [] i = -1"
| "find_from c (x # xs) i = (if x = c then i else find_from c xs (i + 1))"

definition str_find :: "string \<Rightarrow> char \<Rightarrow> int" where
  "str_find s c = find_from c s 0"

fun rfind_from :: "char \<Rightarrow> string \<Rightarrow> int \<Rightarrow> int \<Rightarrow> int" where
  "rfind_from c [] i best = best"
| "rfind_from c (x # xs) i best = rfind_from c xs (i + 1) (if x = c then i else best)"

definition str_rfind :: "string \<Rightarrow> char \<Rightarrow> int" where
  "str_rfind s c = rfind_from c s 0 (-1)"

text \<open>\<^verbatim>\<open>s[i:j]\<close> for \<open>0 \<le> i\<close> and \<open>0 \<le> j\<close> (the only slice the source takes).\<close>

definition slice :: "string \<Rightarrow> int \<Rightarrow> int \<Rightarrow> string" where
  "slice s i j = take (nat j - nat i) (drop (nat i) s)"

text \<open>\<^verbatim>\<open>os.path.join(a, b)\<close> and \<^verbatim>\<open>os.path.basename(p)\<close> on POSIX paths.\<close>

definition os_path_join :: "string \<Rightarrow> string \<Rightarrow> string" where
  "os_path_join a b =
     (if b \<noteq> [] \<and> hd b = CHR ''/'' then b
      else if a = [] \<or> last a = CHR ''/'' then a @ b
      else a @ ''/'' @ b)"

definition os_path_basename :: "string \<Rightarrow> string" where
  "os_path_basename p = rev (takeWhile (\<lambda>x. x \<noteq> CHR ''/'') (rev p))"

section \<open>File system operations\<close>

definition os_path_exists :: "world \<Rightarrow> string \<Rightarrow> bool" where
  "os_path_exists w p = (files w p \<noteq> None)"

text \<open>\<^verbatim>\<open>os.path.exists(p) and os.path.getsize(p) > 0\<close>\<close>

definition exists_nonempty :: "world \<Rightarrow> string \<Rightarrow> bool" where
  "exists_nonempty w p = (case files w p of None \<Rightarrow> False | Some c \<Rightarrow> 0 < length c)"

text \<open>\<^verbatim>\<open>os.remove(p)\<close> and \<^verbatim>\<open>os.unlink(p)\<close>: raise \<^verbatim>\<open>OSError\<close> when the path is missing or
  cannot be deleted.\<close>

definition os_remove :: "env \<Rightarrow> string \<Rightarrow> world \<Rightarrow> (exn + unit) \<times> world" where
  "os_remove env p w =
     (if files w p = None then (Inl (OSError ''No such file or directory''), w)
      else if remove_fails env p then (Inl (OSError ''Permission denied''), w)
      else (Inr (), w\<lparr>files := (files w)(p := None)\<rparr>))"

text \<open>\<^verbatim>\<open>file.save(p)\<close>\<close>

definition file_save :: "string \<Rightarrow> string \<Rightarrow> world \<Rightarrow> world" where
  "file_save p content w = w\<lparr>files := (files w)(p \<mapsto> content)\<rparr>"

definition log_event :: "event \<Rightarrow> world \<Rightarrow> world" where
  "log_event e w = w\<lparr>events := events w @ [e]\<rparr>"

section \<open>Configuration and \<^verbatim>\<open>allowed_file\<close>\<close>

definition UPLOAD_FOLDER :: string where
  "UPLOAD_FOLDER = ''uploads''"

definition ALLOWED_EXTENSIONS :: "string set" where
  "ALLOWED_EXTENSIONS = {''mp4'', ''avi'', ''mov'', ''wmv'', ''mkv'', ''webm'', ''webp''}"

definition allowed_file :: "string \<Rightarrow> bool" where
  "allowed_file filename =
     (CHR ''.'' \<in> set filename \<and> lower (rsplit1_snd CHR ''.'' filename) \<in> ALLOWED_EXTENSIONS)"

section \<open>The format normaliser\<close>

definition ffmpeg_cmd :: "string \<Rightarrow> string \<Rightarrow> string list" where
  "ffmpeg_cmd webm_path mp4_path =
     [''ffmpeg'', ''-i'', webm_path, ''-c:v'', ''libx264'', ''-preset'', ''medium'',
      ''-c:a'', ''aac'', ''-strict'', ''experimental'', ''-b:a'', ''128k'', ''-y'', mp4_path]"

text \<open>The body shared by the two \<^verbatim>\<open>except\<close> clauses once \<^verbatim>\<open>mp4_path\<close> is bound: delete the
  output if it exists, return \<^verbatim>\<open>None\<close>. An error of \<^verbatim>\<open>os.unlink\<close> is raised inside the
  handler and leaves the function.\<close>

definition discard_output :: "env \<Rightarrow> string \<Rightarrow> world \<Rightarrow> (exn + string option) \<times> world" where
  "discard_output env mp4_path w =
     (if os_path_exists w mp4_path
      then (case os_remove env mp4_path w of
              (Inl e, w') \<Rightarrow> (Inl e, w')
            | (Inr u, w') \<Rightarrow> (Inr None, w'))
      else (Inr None, w))"

text \<open>\<^verbatim>\<open>subprocess.run(cmd, check=True)\<close>: a non-zero exit status raises
  \<^verbatim>\<open>CalledProcessError\<close>; failing to start the program raises another exception.\<close>

definition subprocess_run :: "env \<Rightarrow> string list \<Rightarrow> world \<Rightarrow> (exn + unit) \<times> world" where
  "subprocess_run env cmd w =
     (let w' = log_event (EncoderRun cmd) (w\<lparr>files := encoder_effect env cmd (files w)\<rparr>)
      in case encoder_exit env cmd of
           Inl e \<Rightarrow> (Inl e, w')
         | Inr code \<Rightarrow>
             if code = 0 then (Inr (), w')
             else (Inl (CalledProcessError ''non-zero exit status''), w'))"

definition convert_webm_to_mp4 :: "env \<Rightarrow> string \<Rightarrow> world \<Rightarrow> (exn + string option) \<times> world" where
  "convert_webm_to_mp4 env webm_path w0 =
     (let w = log_event (ConvertCalled webm_path) w0
      in case mkstemp env ''.mp4'' UPLOAD_FOLDER (files w) of
           Inl e \<Rightarrow> (Inr None, w)
         | Inr mp4_path \<Rightarrow>
             (case subprocess_run env (ffmpeg_cmd webm_path mp4_path)
                     (w\<lparr>files := (files w)(mp4_path \<mapsto> [])\<rparr>) of
                (Inr u, w') \<Rightarrow>
                  if exists_nonempty w' mp4_path then (Inr (Some mp4_path), w')
                  else (Inr None, w')
              | (Inl e, w') \<Rightarrow> discard_output env mp4_path w'))"

section \<open>The request handler\<close>

text \<open>The uploaded file part (\<^verbatim>\<open>FileStorage\<close>; it is truthy when its filename is) and the
  request: \<^verbatim>\<open>request.files.get('video')\<close> and \<^verbatim>\<open>request.form.get('interview_question')\<close>.\<close>

record upload =
  filename :: "string option"
  content :: string

record request =
  video :: "upload option"
  interview_question :: "string option"

type_synonym body = "string \<rightharpoonup> json"
type_synonym response = "body \<times> nat"

definition nl :: string where
  "nl = [CHR 0x0A]"

definition label :: "string \<Rightarrow> string" where
  "label key = title (replace_char CHR ''_'' CHR '' '' key)"

text \<open>Line 190: the loop over \<^verbatim>\<open>audio_metrics.items()\<close>.\<close>

fun audio_lines :: "env \<Rightarrow> (string \<times> json) list \<Rightarrow> string \<Rightarrow> string" where
  "audio_lines env [] acc = acc"
| "audio_lines env ((key, val) # rest) acc =
     audio_lines env rest (acc @ ''- '' @ label key @ '': '' @ str_of env val @ nl)"

definition format_audio_metrics :: "env \<Rightarrow> (string \<times> json) list option \<Rightarrow> string" where
  "format_audio_metrics env audio_metrics =
     (case audio_metrics of
        None \<Rightarrow> []
      | Some kvs \<Rightarrow> if kvs \<noteq> [] then audio_lines env kvs (''Audio Analysis:'' @ nl) else [])"

text \<open>Line 199: the loop over \<^verbatim>\<open>value.items()\<close>.\<close>

fun emotion_lines :: "env \<Rightarrow> (string \<times> json) list \<Rightarrow> string \<Rightarrow> string" where
  "emotion_lines env [] acc = acc"
| "emotion_lines env ((emotion, count) # rest) acc =
     emotion_lines env rest (acc @ ''  - '' @ emotion @ '': '' @ str_of env count @ nl)"

text \<open>Line 196: the loop over \<^verbatim>\<open>video_metrics.items()\<close>. A value of the key
  \<^verbatim>\<open>emotion_distribution\<close> that is no mapping has no \<^verbatim>\<open>items\<close>.\<close>

fun video_lines :: "env \<Rightarrow> (string \<times> json) list \<Rightarrow> string \<Rightarrow> exn + string" where
  "video_lines env [] acc = Inr acc"
| "video_lines env ((key, val) # rest) acc =
     (if key = ''emotion_distribution''
      then (case val of
              JDict kvs \<Rightarrow>
                video_lines env rest (emotion_lines env kvs (acc @ ''- '' @ label key @ '':'' @ nl))
            | _ \<Rightarrow> Inl (AttributeError ''object has no attribute items''))
      else video_lines env rest (acc @ ''- '' @ label key @ '': '' @ str_of env val @ nl))"

definition format_video_metrics :: "env \<Rightarrow> (string \<times> json) list option \<Rightarrow> exn + string" where
  "format_video_metrics env video_metrics =
     (case video_metrics of
        None \<Rightarrow> Inr []
      | Some kvs \<Rightarrow>
          if kvs \<noteq> [] \<and> ''error'' \<notin> fst ` set kvs
          then video_lines env kvs (''Video Analysis:'' @ nl)
          else Inr [])"

text \<open>Lines 217 to 231: the analysis text of the service, parsed where it holds a JSON
  object. Only \<^verbatim>\<open>json.JSONDecodeError\<close> is caught here.\<close>

definition store_analysis :: "env \<Rightarrow> string \<Rightarrow> body \<Rightarrow> exn + body" where
  "store_analysis env analysis_text results =
     (let json_start = str_find analysis_text CHR ''{'';
          json_end = str_rfind analysis_text CHR ''}'' + 1
      in if json_start \<ge> 0 \<and> json_end > json_start
         then (case json_loads env (slice analysis_text json_start json_end) of
                 Inr gemini_analysis \<Rightarrow> Inr (results(''gemini_analysis'' \<mapsto> gemini_analysis))
               | Inl (JSONDecodeError m) \<Rightarrow> Inr (results(''gemini_analysis'' \<mapsto> JStr analysis_text))
               | Inl e \<Rightarrow> Inl e)
         else Inr (results(''gemini_analysis'' \<mapsto> JStr analysis_text)))"

text \<open>Lines 207 to 237.\<close>

definition gemini_stage ::
  "env \<Rightarrow> string \<Rightarrow> string \<Rightarrow> string \<Rightarrow> string \<Rightarrow> body \<Rightarrow> world \<Rightarrow> (exn + body) \<times> world" where
  "gemini_stage env question transcript audio_metrics_str video_metrics_str results w =
     (if (case GEMINI_API_KEY env of None \<Rightarrow> False | Some k \<Rightarrow> k \<noteq> [])
      then (let w' = log_event (Gemini question transcript audio_metrics_str video_metrics_str) w
            in case analyze_video_with_gemini env question transcript
                      audio_metrics_str video_metrics_str of
                 Inl e \<Rightarrow> (Inl e, w')
               | Inr gemini_result \<Rightarrow>
                   (case gemini_result ''analysis'' of
                      Some analysis_text \<Rightarrow> (store_analysis env analysis_text results, w')
                    | None \<Rightarrow>
                        (Inr (results(''gemini_error'' \<mapsto>
                           JStr (case gemini_result ''error'' of
                                   Some m \<Rightarrow> m
                                 | None \<Rightarrow> ''Unknown Gemini error''))), w')))
      else (Inr (results(''gemini_error'' \<mapsto> JStr ''Gemini API key not configured'')), w))"

text \<open>\<^verbatim>\<open>if os.path.exists(p): try: os.remove(p) except OSError: pass\<close>\<close>

definition remove_quietly :: "env \<Rightarrow> string \<Rightarrow> world \<Rightarrow> world" where
  "remove_quietly env p w =
     (if os_path_exists w p then snd (os_remove env p w) else w)"

text \<open>Lines 239 to 259: the clean-up of the success path and the response.\<close>

definition finish :: "env \<Rightarrow> string \<Rightarrow> string \<Rightarrow> body \<Rightarrow> world \<Rightarrow> (exn + response) \<times> world" where
  "finish env file_path original_file_path results w =
     (let w1 = remove_quietly env (OUTPUT_AUDIO_FILENAME env) w;
          w2 = (if original_file_path \<noteq> file_path then remove_quietly env original_file_path w1
                else w1)
      in (Inr (results(''status'' \<mapsto> JStr ''complete''), 200), w2))"

text \<open>Lines 174 to 259, entered with the transcript.\<close>

definition analyze_and_finish ::
  "env \<Rightarrow> string \<Rightarrow> string \<Rightarrow> string \<Rightarrow> string \<Rightarrow> body \<Rightarrow> world \<Rightarrow> (exn + response) \<times> world" where
  "analyze_and_finish env question file_path original_file_path transcript results0 w0 =
     (let w1 = log_event (AnalyzeAudio (OUTPUT_AUDIO_FILENAME env) transcript) w0
      in case analyze_audio_features env (OUTPUT_AUDIO_FILENAME env) transcript of
           Inl e \<Rightarrow> (Inl e, w1)
         | Inr audio_metrics \<Rightarrow>
             (let results1 = (case audio_metrics of
                                None \<Rightarrow> results0
                              | Some kvs \<Rightarrow>
                                  if kvs \<noteq> [] then results0(''audio_metrics'' \<mapsto> JDict kvs)
                                  else results0);
                  w2 = log_event (AnalyzeVideo file_path) w1
              in case analyze_video_features env file_path of
                   Inl e \<Rightarrow> (Inl e, w2)
                 | Inr video_metrics \<Rightarrow>
                     (let results2 = (case video_metrics of
                                        None \<Rightarrow> results1
                                      | Some kvs \<Rightarrow>
                                          if kvs \<noteq> [] \<and> ''error'' \<notin> fst ` set kvs
                                          then results1(''video_metrics'' \<mapsto> JDict kvs)
                                          else results1);
                          audio_metrics_str = format_audio_metrics env audio_metrics
                      in case format_video_metrics env video_metrics of
                           Inl e \<Rightarrow> (Inl e, w2)
                         | Inr video_metrics_str \<Rightarrow>
                             (case gemini_stage env question transcript audio_metrics_str
                                     video_metrics_str results2 w2 of
                                (Inl e, w3) \<Rightarrow> (Inl e, w3)
                              | (Inr results3, w3) \<Rightarrow>
                                  finish env file_path original_file_path results3 w3))))"

text \<open>Lines 150 to 259: the body of the \<^verbatim>\<open>try\<close> block. \<open>Inl\<close> is an exception raised inside
  it, \<open>Inr\<close> a \<^verbatim>\<open>return\<close>.\<close>

definition process_stages ::
  "env \<Rightarrow> string \<Rightarrow> string \<Rightarrow> string \<Rightarrow> string \<Rightarrow> world \<Rightarrow> (exn + response) \<times> world" where
  "process_stages env question fname file_path original_file_path w0 =
     (let audio = OUTPUT_AUDIO_FILENAME env;
          results = [''video_file'' \<mapsto> JStr fname,
                     ''interview_question'' \<mapsto> JStr question,
                     ''status'' \<mapsto> JStr ''processing''];
          w1 = log_event (ExtractAudio file_path audio)
                 (w0\<lparr>files := extract_audio_effect env file_path audio (files w0)\<rparr>)
      in case extract_audio env file_path audio of
           Inl e \<Rightarrow> (Inl e, w1)
         | Inr ok \<Rightarrow>
             if \<not> ok
             then (Inr ([''error'' \<mapsto> JStr ''Audio extraction failed'',
                         ''video_file'' \<mapsto> JStr fname], 500), w1)
             else (let w2 = log_event (Transcribe audio) w1
                   in case transcribe_audio env audio of
                        Inl e \<Rightarrow> (Inl e, w2)
                      | Inr None \<Rightarrow>
                          (let failed = ([''error'' \<mapsto> JStr ''Transcription failed'',
                                          ''video_file'' \<mapsto> JStr fname], 500)
                           in if os_path_exists w2 audio
                              then (case os_remove env audio w2 of
                                      (Inl e, w3) \<Rightarrow> (Inl e, w3)
                                    | (Inr u, w3) \<Rightarrow> (Inr failed, w3))
                              else (Inr failed, w2))
                      | Inr (Some transcript) \<Rightarrow>
                          analyze_and_finish env question file_path original_file_path
                            transcript (results(''transcript'' \<mapsto> JStr transcript)) w2))"

text \<open>Lines 261 to 284: the \<^verbatim>\<open>except Exception\<close> handler.\<close>

definition handle_fault ::
  "env \<Rightarrow> exn \<Rightarrow> string \<Rightarrow> string \<Rightarrow> string \<Rightarrow> world \<Rightarrow> (exn + response) \<times> world" where
  "handle_fault env e fname file_path original_file_path w =
     (let w1 = remove_quietly env (OUTPUT_AUDIO_FILENAME env) w;
          w2 = (if original_file_path \<noteq> file_path then remove_quietly env file_path w1 else w1)
      in (Inr ([''error'' \<mapsto> JStr (''Error processing video: '' @ str_exn e),
                ''video_file'' \<mapsto> JStr fname], 500), w2))"

text \<open>Lines 143 to 284: the \<^verbatim>\<open>try\<close> statement.\<close>

definition run_pipeline ::
  "env \<Rightarrow> string \<Rightarrow> string \<Rightarrow> string \<Rightarrow> string \<Rightarrow> world \<Rightarrow> (exn + response) \<times> world" where
  "run_pipeline env question fname file_path original_file_path w =
     (case process_stages env question fname file_path original_file_path w of
        (Inr resp, w') \<Rightarrow> (Inr resp, w')
      | (Inl e, w') \<Rightarrow> handle_fault env e fname file_path original_file_path w')"

definition error_only :: "string \<Rightarrow> body" where
  "error_only msg = [''error'' \<mapsto> JStr msg]"

text \<open>The handler. \<open>Inl\<close> is an exception that leaves it (raised by \<^verbatim>\<open>convert_webm_to_mp4\<close>,
  which is called outside the \<^verbatim>\<open>try\<close> block).\<close>

definition process_video_complete :: "env \<Rightarrow> request \<Rightarrow> world \<Rightarrow> (exn + response) \<times> world" where
  "process_video_complete env req w =
     (case video req of
        None \<Rightarrow> (Inr (error_only ''No video part in the request'', 400), w)
      | Some file \<Rightarrow>
          (let question = (case interview_question req of None \<Rightarrow> [] | Some q \<Rightarrow> q)
           in if question = []
              then (Inr (error_only ''No interview_question provided'', 400), w)
              else if filename file = Some []
              then (Inr (error_only ''No selected file'', 400), w)
              else (case filename file of
                      None \<Rightarrow> (Inr (error_only ''File type not allowed'', 400), w)
                    | Some raw \<Rightarrow>
                        if raw \<noteq> [] \<and> allowed_file raw
                        then (if raw = []
                              then (Inr (error_only ''Filename missing'', 400), w)
                              else (let fname = secure_filename env raw;
                                        file_path = os_path_join UPLOAD_FOLDER fname;
                                        w1 = file_save file_path (content file) w
                                    in if endswith (lower fname) ''.webm''
                                       then (case convert_webm_to_mp4 env file_path w1 of
                                               (Inl e, w2) \<Rightarrow> (Inl e, w2)
                                             | (Inr None, w2) \<Rightarrow>
                                                 (Inr (error_only
                                                   ''Failed to convert .webm file to .mp4'', 500), w2)
                                             | (Inr (Some mp4_path), w2) \<Rightarrow>
                                                 if mp4_path \<noteq> []
                                                 then run_pipeline env question
                                                        (os_path_basename mp4_path) mp4_path file_path w2
                                                 else (Inr (error_only
                                                   ''Failed to convert .webm file to .mp4'', 500), w2))
                                       else run_pipeline env question fname file_path file_path w1))
                        else (Inr (error_only ''File type not allowed'', 400), w))))"

section \<open>Concrete environments and requests\<close>

text \<open>Decimal digits of a natural number, and \<^verbatim>\<open>str\<close> on values whose strings hold no quote,
  backslash or control character (mappings and lists print as Python prints them).\<close>

fun digits :: "nat \<Rightarrow> string" where
  "digits n = (if n < 10 then [char_of (48 + n)] else digits (n div 10) @ [char_of (48 + n mod 10)])"

declare digits.simps [simp del]

definition str_int :: "int \<Rightarrow> string" where
  "str_int i = (if i < 0 then ''-'' @ digits (nat (- i)) else digits (nat i))"

definition quoted :: "string \<Rightarrow> string" where
  "quoted s = [CHR 0x27] @ s @ [CHR 0x27]"

fun join_comma :: "string list \<Rightarrow> string" where
  "join_comma [] = []"
| "join_comma [x] = x"
| "join_comma (x # y # ys) = x @ '', '' @ join_comma (y # ys)"

fun repr_plain :: "json \<Rightarrow> string" where
  "repr_plain JNull = ''None''"
| "repr_plain (JBool b) = (if b then ''True'' else ''False'')"
| "repr_plain (JInt i) = str_int i"
| "repr_plain (JStr s) = quoted s"
| "repr_plain (JList vs) = ''['' @ join_comma (map repr_plain vs) @ '']''"
| "repr_plain (JDict kvs) =
     ''{'' @ join_comma (map (\<lambda>(k, v). quoted k @ '': '' @ repr_plain v) kvs) @ ''}''"

definition str_plain :: "json \<Rightarrow> string" where
  "str_plain v = (case v of JStr s \<Rightarrow> s | _ \<Rightarrow> repr_plain v)"

text \<open>An allocator of temporary names that tries two names in turn, as \<^verbatim>\<open>mkstemp\<close> tries
  candidates until one is unused.\<close>

definition two_names :: "string \<Rightarrow> string \<Rightarrow> filesystem \<Rightarrow> exn + string" where
  "two_names sfx dir fs =
     (if fs (dir @ ''/tmp0'' @ sfx) = None then Inr (dir @ ''/tmp0'' @ sfx)
      else if fs (dir @ ''/tmp1'' @ sfx) = None then Inr (dir @ ''/tmp1'' @ sfx)
      else Inl (OSError ''No usable temporary file name found''))"

text \<open>Every collaborator succeeds: the encoder writes its output file, the audio extraction
  writes the audio file, the service answers with text around a JSON object that the parser
  accepts.\<close>

definition env_ok :: env where
  "env_ok =
     \<lparr> secure_filename = (\<lambda>s. s),
       mkstemp = two_names,
       encoder_exit = (\<lambda>cmd. Inr 0),
       encoder_effect = (\<lambda>cmd fs. fs(last cmd \<mapsto> ''mp4-data'')),
       extract_audio = (\<lambda>src out. Inr True),
       extract_audio_effect = (\<lambda>src out fs. fs(out \<mapsto> ''wav-data'')),
       transcribe_audio = (\<lambda>p. Inr (Some ''hello'')),
       analyze_audio_features = (\<lambda>p t. Inr (Some [(''speaking_rate'', JInt 120)])),
       analyze_video_features =
         (\<lambda>p. Inr (Some [(''emotion_distribution'', JDict [(''happy'', JInt 3)])])),
       analyze_video_with_gemini = (\<lambda>q t a v. Inr [''analysis'' \<mapsto> ''ok {} done'']),
       json_loads = (\<lambda>s. if s = ''{}'' then Inr (JDict []) else Inl (JSONDecodeError ''bad'')),
       str_of = str_plain,
       remove_fails = (\<lambda>p. False),
       GEMINI_API_KEY = Some ''key'',
       OUTPUT_AUDIO_FILENAME = ''extracted_audio.wav'' \<rparr>"

definition empty_world :: world where
  "empty_world = \<lparr> files = Map.empty, events = [] \<rparr>"

definition webm_request :: request where
  "webm_request =
     \<lparr> video = Some \<lparr> filename = Some ''talk.webm'', content = ''webm-data'' \<rparr>,
       interview_question = Some ''Describe your experience'' \<rparr>"

definition mp4_request :: request where
  "mp4_request =
     \<lparr> video = Some \<lparr> filename = Some ''talk.mp4'', content = ''mp4-data'' \<rparr>,
       interview_question = Some ''Describe your experience'' \<rparr>"

text \<open>The encoder exits with status 0 and writes nothing.\<close>

definition env_silent_encoder :: env where
  "env_silent_encoder = env_ok\<lparr> encoder_effect := (\<lambda>cmd fs. fs) \<rparr>"

definition txt_request :: request where
  "txt_request =
     \<lparr> video = Some \<lparr> filename = Some ''notes.txt'', content = ''text'' \<rparr>,
       interview_question = Some ''Describe your experience'' \<rparr>"

text \<open>The audio extraction reports failure and leaves a partial file at its output path.\<close>

definition env_extract_fails :: env where
  "env_extract_fails =
     env_ok\<lparr> extract_audio := (\<lambda>src out. Inr False),
             extract_audio_effect := (\<lambda>src out fs. fs(out \<mapsto> ''partial'')) \<rparr>"

text \<open>The audio analyser raises.\<close>

definition env_analyzer_raises :: env where
  "env_analyzer_raises =
     env_ok\<lparr> analyze_audio_features := (\<lambda>p t. Inl (OtherError ''boom'')) \<rparr>"



text \<open>The encoder exits with status 1 after writing part of its output.\<close>

definition env_encoder_fails :: env where
  "env_encoder_fails =
     env_ok\<lparr> encoder_exit := (\<lambda>cmd. Inr 1),
             encoder_effect := (\<lambda>cmd fs. fs(last cmd \<mapsto> ''part'')) \<rparr>"

text \<open>What a run of the handler shows: the status of the response and a field of its body.\<close>

definition status_of :: "(exn + response) \<times> world \<Rightarrow> nat option" where
  "status_of r = (case fst r of Inl e \<Rightarrow> None | Inr (b, st) \<Rightarrow> Some st)"

definition field_of :: "(exn + response) \<times> world \<Rightarrow> string \<Rightarrow> json option" where
  "field_of r k = (case fst r of Inl e \<Rightarrow> None | Inr (b, st) \<Rightarrow> b k)"

text \<open>The lines of the metric blocks. A metric on one line, and a metric with a nested
  mapping as a label followed by one indented line for each entry.\<close>

definition inline_line :: "env \<Rightarrow> string \<Rightarrow> json \<Rightarrow> string" where
  "inline_line env key val = ''- '' @ label key @ '': '' @ str_of env val @ nl"

definition sub_line :: "env \<Rightarrow> string \<times> json \<Rightarrow> string" where
  "sub_line env kv = ''  - '' @ fst kv @ '': '' @ str_of env (snd kv) @ nl"

definition nested_lines :: "env \<Rightarrow> string \<Rightarrow> (string \<times> json) list \<Rightarrow> string" where
  "nested_lines env key kvs = ''- '' @ label key @ '':'' @ nl @ concat (map (sub_line env) kvs)"

text \<open>The formatting rule in the words of the specification: every nested mapping is
  rendered as a sub-list.\<close>

fun spec_metric_line :: "env \<Rightarrow> string \<times> json \<Rightarrow> string" where
  "spec_metric_line env (key, JDict kvs) = nested_lines env key kvs"
| "spec_metric_line env (key, val) = inline_line env key val"

text \<open>The rule the video block follows: only the metric \<^verbatim>\<open>emotion_distribution\<close> is rendered
  as a sub-list.\<close>

fun video_metric_line :: "env \<Rightarrow> string \<times> json \<Rightarrow> string" where
  "video_metric_line env (key, JDict kvs) =
     (if key = ''emotion_distribution'' then nested_lines env key kvs
      else inline_line env key (JDict kvs))"
| "video_metric_line env (key, val) = inline_line env key val"

text \<open>Title case: a lower-case letter only after a letter, an upper-case letter only at the
  start or after a character that is no letter.\<close>

fun title_cased_from :: "bool \<Rightarrow> string \<Rightarrow> bool" where
  "title_cased_from prev [] = True"
| "title_cased_from prev (c # cs) =
     (if is_lower c then prev \<and> title_cased_from True cs
      else if is_upper c then \<not> prev \<and> title_cased_from True cs
      else title_cased_from False cs)"

definition title_cased :: "string \<Rightarrow> bool" where
  "title_cased s = title_cased_from False s"

text \<open>Line 133: the test that sends an upload to the normaliser.\<close>

definition needs_conversion :: "env \<Rightarrow> request \<Rightarrow> bool" where
  "needs_conversion env req =
     (case video req of
        None \<Rightarrow> False
      | Some file \<Rightarrow>
          (case filename file of
             None \<Rightarrow> False
           | Some raw \<Rightarrow> endswith (lower (secure_filename env raw)) ''.webm''))"

text \<open>A call made by a stage downstream of normalisation that works on the media file
  \<open>fp\<close>: no call of the normaliser or the encoder, and every media path handed to a
  collaborator is \<open>fp\<close>.\<close>

fun stage_event :: "string \<Rightarrow> event \<Rightarrow> bool" where
  "stage_event fp (ConvertCalled p) = False"
| "stage_event fp (EncoderRun cmd) = False"
| "stage_event fp (ExtractAudio src out) = (src = fp)"
| "stage_event fp (Transcribe a) = True"
| "stage_event fp (AnalyzeAudio a t) = True"
| "stage_event fp (AnalyzeVideo p) = (p = fp)"
| "stage_event fp (Gemini q t a v) = True"

text \<open>The calls a run adds to the log.\<close>

definition new_events :: "world \<Rightarrow> world \<Rightarrow> event list" where
  "new_events w w' = drop (length (events w)) (events w')"


text \<open>A JSON object nested \<open>n\<close> levels deep.\<close>

fun nested_object :: "nat \<Rightarrow> string" where
  "nested_object 0 = ''1''"
| "nested_object (Suc n) = ''{'' @ [CHR 0x22] @ ''a'' @ [CHR 0x22] @ '':'' @ nested_object n @ ''}''"

definition deep_payload :: string where
  "deep_payload = nested_object (Suc 99999)"

text \<open>The service answers with a JSON object nested too deep for the parser, which raises
  \<^verbatim>\<open>RecursionError\<close>, an exception that is no \<^verbatim>\<open>JSONDecodeError\<close>.\<close>

definition env_deep_nesting :: env where
  "env_deep_nesting =
     env_ok\<lparr> analyze_video_with_gemini := (\<lambda>q t a v. Inr [''analysis'' \<mapsto> deep_payload]),
             json_loads := (\<lambda>s. Inl (OtherError ''maximum recursion depth exceeded'')) \<rparr>"

section \<open>The format normaliser: what a failed conversion leaves behind\<close>

lemmas convert_defs =
  convert_webm_to_mp4_def subprocess_run_def discard_output_def log_event_def
  exists_nonempty_def os_path_exists_def os_remove_def

text \<open>When the encoder exits with a non-zero status, the output file that \<^verbatim>\<open>mkstemp\<close>
  created is deleted and \<^verbatim>\<open>None\<close> is returned (provided the deletion itself works).\<close>

lemma convert_nonzero_exit_discards:
  assumes "mkstemp env ''.mp4'' UPLOAD_FOLDER (files w) = Inr p"
    and "encoder_exit env (ffmpeg_cmd webm_path p) = Inr code"
    and "code \<noteq> 0"
    and "\<not> remove_fails env p"
  shows "fst (convert_webm_to_mp4 env webm_path w) = Inr None
    \<and> files (snd (convert_webm_to_mp4 env webm_path w)) p = None"
  using assms by (auto simp add: convert_defs Let_def)

text \<open>A successful conversion returns the allocated path, and a non-empty file is there.\<close>

lemma convert_success_nonempty:
  assumes "convert_webm_to_mp4 env webm_path w = (Inr (Some p), w')"
  shows "exists_nonempty w' p \<and> mkstemp env ''.mp4'' UPLOAD_FOLDER (files w) = Inr p"
  using assms
  by (auto simp add: convert_webm_to_mp4_def discard_output_def log_event_def Let_def
      split: sum.splits prod.splits if_splits)

text \<open>
  C3. On every failure of \<^verbatim>\<open>convert_webm_to_mp4\<close> the function returns \<^verbatim>\<open>None\<close> and the
  partially written output is deleted, so that no zero-byte \<^verbatim>\<open>.mp4\<close> file remains. The
  branch for an output that fails validation (lines 78 to 80) returns \<^verbatim>\<open>None\<close> without
  deleting anything: with an encoder that exits with status 0 and writes nothing, the empty
  file created by \<^verbatim>\<open>mkstemp\<close> is still there after the call.
\<close>

theorem convert_validation_failure_keeps_empty_output:
  "fst (convert_webm_to_mp4 env_silent_encoder ''uploads/talk.webm'' empty_world) = Inr None
   \<and> files (snd (convert_webm_to_mp4 env_silent_encoder ''uploads/talk.webm'' empty_world))
         ''uploads/tmp0.mp4'' = Some []"
  by (simp add: convert_defs ffmpeg_cmd_def UPLOAD_FOLDER_def
      env_silent_encoder_def env_ok_def empty_world_def two_names_def)

section \<open>Evaluating the handler on the concrete environments\<close>

lemma names_txt: "\<not> allowed_file ''notes.txt''"
  by code_simp

lemma names_mp4:
  "allowed_file ''talk.mp4''"
  "\<not> endswith (lower ''talk.mp4'') ''.webm''"
  "os_path_join UPLOAD_FOLDER ''talk.mp4'' = ''uploads/talk.mp4''"
  by code_simp+

lemma names_webm:
  "allowed_file ''talk.webm''"
  "endswith (lower ''talk.webm'') ''.webm''"
  "os_path_join UPLOAD_FOLDER ''talk.webm'' = ''uploads/talk.webm''"
  "os_path_basename ''uploads/tmp0.mp4'' = ''tmp0.mp4''"
  "os_path_basename ''uploads/tmp1.mp4'' = ''tmp1.mp4''"
  by code_simp+

lemma two_names_uploads:
  "two_names ''.mp4'' UPLOAD_FOLDER fs =
     (if fs ''uploads/tmp0.mp4'' = None then Inr ''uploads/tmp0.mp4''
      else if fs ''uploads/tmp1.mp4'' = None then Inr ''uploads/tmp1.mp4''
      else Inl (OSError ''No usable temporary file name found''))"
  by (simp add: two_names_def UPLOAD_FOLDER_def)

lemma env_ok_simps:
  "secure_filename env_ok = (\<lambda>s. s)"
  "mkstemp env_ok = two_names"
  "encoder_exit env_ok = (\<lambda>cmd. Inr 0)"
  "encoder_effect env_ok = (\<lambda>cmd fs. fs(last cmd \<mapsto> ''mp4-data''))"
  "extract_audio env_ok = (\<lambda>src out. Inr True)"
  "extract_audio_effect env_ok = (\<lambda>src out fs. fs(out \<mapsto> ''wav-data''))"
  "transcribe_audio env_ok = (\<lambda>p. Inr (Some ''hello''))"
  "analyze_audio_features env_ok = (\<lambda>p t. Inr (Some [(''speaking_rate'', JInt 120)]))"
  "analyze_video_features env_ok =
     (\<lambda>p. Inr (Some [(''emotion_distribution'', JDict [(''happy'', JInt 3)])]))"
  "analyze_video_with_gemini env_ok = (\<lambda>q t a v. Inr [''analysis'' \<mapsto> ''ok {} done''])"
  "json_loads env_ok =
     (\<lambda>s. if s = ''{}'' then Inr (JDict []) else Inl (JSONDecodeError ''bad''))"
  "str_of env_ok = str_plain"
  "remove_fails env_ok = (\<lambda>p. False)"
  "GEMINI_API_KEY env_ok = Some ''key''"
  "OUTPUT_AUDIO_FILENAME env_ok = ''extracted_audio.wav''"
  by (simp_all add: env_ok_def)

lemma labels:
  "label ''speaking_rate'' = ''Speaking Rate''"
  "label ''emotion_distribution'' = ''Emotion Distribution''"
  "label ''error'' = ''Error''"
  "label ''pitch'' = ''Pitch''"
  by code_simp+

lemma str_plain_values:
  "str_plain (JInt 120) = ''120''"
  "str_plain (JInt 3) = ''3''"
  "str_plain (JInt 1) = ''1''"
  "str_plain (JStr s) = s"
  by (code_simp, code_simp, code_simp, simp add: str_plain_def)

lemmas format_defs = format_audio_metrics_def format_video_metrics_def nl_def

lemmas store_analysis_defs = store_analysis_def str_find_def str_rfind_def slice_def

lemmas handler_defs =
  process_video_complete_def run_pipeline_def process_stages_def analyze_and_finish_def
  gemini_stage_def finish_def handle_fault_def remove_quietly_def file_save_def
  error_only_def Let_def

lemmas eval_ok =
  handler_defs convert_defs ffmpeg_cmd_def two_names_uploads names_txt names_mp4 names_webm
  env_ok_simps format_defs labels str_plain_values store_analysis_defs
  webm_request_def mp4_request_def txt_request_def empty_world_def

section \<open>Validation\<close>

text \<open>
  C5. A request without a media file part, with an empty (or missing) filename, with a
  filename whose extension is not allowed, or with an empty (or missing) prompt is answered
  with status 400, and the world is left as it was: no file is written and no collaborator
  is called.
\<close>

theorem validation_rejects_without_writing:
  assumes "video req = None
     \<or> interview_question req = None \<or> interview_question req = Some []
     \<or> (\<exists>f. video req = Some f \<and> (filename f = None \<or> filename f = Some []
            \<or> (\<exists>raw. filename f = Some raw \<and> \<not> allowed_file raw)))"
  shows "\<exists>msg. process_video_complete env req w = (Inr (error_only msg, 400), w)"
  using assms
  by (auto simp add: process_video_complete_def Let_def split: option.splits)

theorem validation_rejects_without_writing_witness:
  "(\<exists>f. video txt_request = Some f \<and> (\<exists>raw. filename f = Some raw \<and> \<not> allowed_file raw))
   \<and> (\<exists>msg. process_video_complete env_ok txt_request empty_world
          = (Inr (error_only msg, 400), empty_world))"
proof -
  have h: "\<exists>f. video txt_request = Some f \<and> (\<exists>raw. filename f = Some raw \<and> \<not> allowed_file raw)"
    by (simp add: txt_request_def names_txt)
  then have "video txt_request = None
     \<or> interview_question txt_request = None \<or> interview_question txt_request = Some []
     \<or> (\<exists>f. video txt_request = Some f \<and> (filename f = None \<or> filename f = Some []
            \<or> (\<exists>raw. filename f = Some raw \<and> \<not> allowed_file raw)))"
    by blast
  from validation_rejects_without_writing [OF this, of env_ok empty_world] h
  show ?thesis by blast
qed

section \<open>Error responses\<close>

text \<open>The results record keeps its \<^verbatim>\<open>video_file\<close> entry through every stage.\<close>

lemma store_analysis_keeps:
  "store_analysis env s results = Inr r \<Longrightarrow> k \<noteq> ''gemini_analysis'' \<Longrightarrow> r k = results k"
  by (auto simp add: store_analysis_def Let_def split: if_splits sum.splits exn.splits)

lemma gemini_stage_keeps:
  "gemini_stage env q t a v results w = (Inr r, w') \<Longrightarrow>
     k \<noteq> ''gemini_analysis'' \<Longrightarrow> k \<noteq> ''gemini_error'' \<Longrightarrow> r k = results k"
  by (auto simp add: gemini_stage_def Let_def split: if_splits sum.splits option.splits
      dest: store_analysis_keeps)

lemma finish_response:
  "finish env fp orig results w = (r, w') \<Longrightarrow>
     r = Inr (results(''status'' \<mapsto> JStr ''complete''), 200)"
  by (auto simp add: finish_def Let_def)

lemma analyze_and_finish_video_file:
  assumes "analyze_and_finish env q fp orig t results0 w = (Inr (body, st), w')"
  shows "st = 200 \<and> body ''video_file'' = results0 ''video_file''"
  using assms
  apply (simp add: analyze_and_finish_def Let_def split: sum.splits prod.splits)
  apply (auto dest!: finish_response gemini_stage_keeps[where k="''video_file''"]
      split: option.splits if_splits)
  done

lemma process_stages_video_file:
  assumes "process_stages env q fname fp orig w = (Inr (body, st), w')"
  shows "body ''video_file'' = Some (JStr fname)
     \<and> (st = 200 \<or> st = 500 \<and> body ''error'' \<noteq> None)"
  using assms
  apply (simp add: process_stages_def Let_def
      split: sum.splits prod.splits if_splits option.splits)
  apply (auto dest!: analyze_and_finish_video_file)
  done

lemma run_pipeline_video_file:
  assumes "run_pipeline env q fname fp orig w = (r, w')"
  shows "\<exists>body st. r = Inr (body, st) \<and> body ''video_file'' = Some (JStr fname)
     \<and> (st = 200 \<or> st = 500 \<and> body ''error'' \<noteq> None)"
  using assms
  apply (simp add: run_pipeline_def split: sum.splits prod.splits)
  apply (auto dest!: process_stages_video_file simp add: handle_fault_def Let_def)
  done

text \<open>
  C4, as stated: every abort with \<^verbatim>\<open>ValidationFailed\<close>, \<^verbatim>\<open>ConversionFailed\<close>,
  \<^verbatim>\<open>ExtractionFailed\<close> or \<^verbatim>\<open>TranscriptionFailed\<close> after a filename is known carries a
  \<^verbatim>\<open>video_file\<close> field in the error body. The upload \<^verbatim>\<open>notes.txt\<close> has a filename and is
  rejected by validation; the body holds the \<^verbatim>\<open>error\<close> field only.
\<close>

theorem validation_error_without_video_file:
  "video txt_request = Some \<lparr> filename = Some ''notes.txt'', content = ''text'' \<rparr>
   \<and> fst (process_video_complete env_ok txt_request empty_world)
       = Inr (error_only ''File type not allowed'', 400)
   \<and> error_only ''File type not allowed'' ''video_file'' = None"
  by (simp add: eval_ok)

text \<open>The conversion failure (line 141): status 500 with the \<^verbatim>\<open>error\<close> field only; the
  upload is still there and the partial output is not.\<close>

lemma conversion_failure_response:
  "process_video_complete env_encoder_fails webm_request empty_world =
     (Inr (error_only ''Failed to convert .webm file to .mp4'', 500),
      \<lparr> files = [''uploads/talk.webm'' \<mapsto> ''webm-data''],
        events = [ConvertCalled ''uploads/talk.webm'',
                  EncoderRun (ffmpeg_cmd ''uploads/talk.webm'' ''uploads/tmp0.mp4'')] \<rparr>)"
  by (simp add: eval_ok env_encoder_fails_def)

text \<open>
  C4, amended. Every response with status 500 other than the conversion failure, that is
  the extraction failure, the transcription failure and the unhandled fault, carries the
  \<^verbatim>\<open>video_file\<close> field next to the \<^verbatim>\<open>error\<close> field.
\<close>

theorem stage_errors_carry_video_file:
  assumes "process_video_complete env req w = (Inr (body, 500), w')"
    and "body ''error'' \<noteq> Some (JStr ''Failed to convert .webm file to .mp4'')"
  shows "(\<exists>fname. body ''video_file'' = Some (JStr fname)) \<and> body ''error'' \<noteq> None"
  using assms
  apply (simp add: process_video_complete_def Let_def error_only_def
      split: option.splits if_splits prod.splits sum.splits)
  apply (auto dest!: run_pipeline_video_file)
  done

lemma env_extract_fails_simps:
  "secure_filename env_extract_fails = (\<lambda>s. s)"
  "extract_audio env_extract_fails = (\<lambda>src out. Inr False)"
  "extract_audio_effect env_extract_fails = (\<lambda>src out fs. fs(out \<mapsto> ''partial''))"
  "OUTPUT_AUDIO_FILENAME env_extract_fails = ''extracted_audio.wav''"
  by (simp_all add: env_extract_fails_def env_ok_def)

lemma run_extract_fails:
  "process_video_complete env_extract_fails mp4_request empty_world =
     (Inr ([''error'' \<mapsto> JStr ''Audio extraction failed'', ''video_file'' \<mapsto> JStr ''talk.mp4''], 500),
      \<lparr> files = [''uploads/talk.mp4'' \<mapsto> ''mp4-data'', ''extracted_audio.wav'' \<mapsto> ''partial''],
        events = [ExtractAudio ''uploads/talk.mp4'' ''extracted_audio.wav''] \<rparr>)"
  by (simp add: eval_ok env_extract_fails_simps)

theorem stage_errors_carry_video_file_witness:
  "\<exists>body w'. process_video_complete env_extract_fails mp4_request empty_world = (Inr (body, 500), w')
     \<and> body ''error'' \<noteq> Some (JStr ''Failed to convert .webm file to .mp4'')
     \<and> (\<exists>fname. body ''video_file'' = Some (JStr fname)) \<and> body ''error'' \<noteq> None"
proof -
  let ?body = "[''error'' \<mapsto> JStr ''Audio extraction failed'', ''video_file'' \<mapsto> JStr ''talk.mp4'']"
  have ne: "?body ''error'' \<noteq> Some (JStr ''Failed to convert .webm file to .mp4'')"
    by simp
  from stage_errors_carry_video_file [OF run_extract_fails ne] run_extract_fails ne
  show ?thesis by blast
qed

section \<open>The audio artifact\<close>

lemma remove_quietly_gone:
  "\<not> remove_fails env p \<Longrightarrow> files (remove_quietly env p w) p = None"
  by (simp add: remove_quietly_def os_path_exists_def os_remove_def)

lemma remove_quietly_keeps_gone:
  "files w p = None \<Longrightarrow> files (remove_quietly env q w) p = None"
  by (simp add: remove_quietly_def os_path_exists_def os_remove_def)

lemma finish_audio_gone:
  assumes "\<not> remove_fails env (OUTPUT_AUDIO_FILENAME env)"
  shows "files (snd (finish env fp orig results w)) (OUTPUT_AUDIO_FILENAME env) = None"
  using assms by (simp add: finish_def Let_def remove_quietly_gone remove_quietly_keeps_gone)

lemma handle_fault_audio_gone:
  assumes "\<not> remove_fails env (OUTPUT_AUDIO_FILENAME env)"
  shows "files (snd (handle_fault env e fname fp orig w)) (OUTPUT_AUDIO_FILENAME env) = None"
  using assms
  by (simp add: handle_fault_def Let_def remove_quietly_gone remove_quietly_keeps_gone)

lemma analyze_and_finish_audio_gone:
  assumes "\<not> remove_fails env (OUTPUT_AUDIO_FILENAME env)"
    and "analyze_and_finish env q fp orig t results0 w = (Inr resp, w')"
  shows "files w' (OUTPUT_AUDIO_FILENAME env) = None"
proof -
  from assms(2) obtain results3 w3 where "finish env fp orig results3 w3 = (Inr resp, w')"
    by (auto simp add: analyze_and_finish_def Let_def split: sum.splits prod.splits)
  then have "w' = snd (finish env fp orig results3 w3)" by simp
  with assms(1) show ?thesis by (simp add: finish_audio_gone)
qed

lemma process_stages_audio_gone:
  assumes "\<not> remove_fails env (OUTPUT_AUDIO_FILENAME env)"
    and "process_stages env q fname fp orig w = (Inr (body, st), w')"
    and "st = 200 \<or> body ''error'' \<noteq> Some (JStr ''Audio extraction failed'')"
  shows "files w' (OUTPUT_AUDIO_FILENAME env) = None"
  using assms
  apply (simp add: process_stages_def Let_def
      split: sum.splits prod.splits if_splits option.splits)
  apply (auto dest: analyze_and_finish_audio_gone
      simp add: os_remove_def os_path_exists_def split: if_splits)
  done

lemma run_pipeline_audio_gone:
  assumes "\<not> remove_fails env (OUTPUT_AUDIO_FILENAME env)"
    and "run_pipeline env q fname fp orig w = (Inr (body, st), w')"
    and "st = 200 \<or> body ''error'' \<noteq> Some (JStr ''Audio extraction failed'')"
  shows "files w' (OUTPUT_AUDIO_FILENAME env) = None"
proof (cases "process_stages env q fname fp orig w")
  case (Pair r w1)
  show ?thesis
  proof (cases r)
    case (Inl e)
    with Pair assms(2) have "w' = snd (handle_fault env e fname fp orig w1)"
      by (simp add: run_pipeline_def)
    with assms(1) show ?thesis by (simp add: handle_fault_audio_gone)
  next
    case (Inr resp)
    with Pair assms(2) have "process_stages env q fname fp orig w = (Inr (body, st), w')"
      by (simp add: run_pipeline_def)
    then show ?thesis using assms(1,3) by (auto dest: process_stages_audio_gone)
  qed
qed

text \<open>
  C2, as stated: after every response the path \<^verbatim>\<open>OUTPUT_AUDIO_FILENAME\<close> does not exist,
  also after an audio extraction failure. That exit (lines 151 to 157) returns without
  any clean-up: when the extraction reports failure and has left a partial file, the file
  is still there after the response.
\<close>

theorem extraction_failure_keeps_audio_file:
  "fst (process_video_complete env_extract_fails mp4_request empty_world)
     = Inr ([''error'' \<mapsto> JStr ''Audio extraction failed'',
             ''video_file'' \<mapsto> JStr ''talk.mp4''], 500)
   \<and> files (snd (process_video_complete env_extract_fails mp4_request empty_world))
         (OUTPUT_AUDIO_FILENAME env_extract_fails) = Some ''partial''"
  by (simp add: run_extract_fails env_extract_fails_simps)

text \<open>
  C2, amended. When the handler leaves by the success response, by the transcription
  failure or by the handler of unhandled faults, and deleting the audio file does not
  fail, the path \<^verbatim>\<open>OUTPUT_AUDIO_FILENAME\<close> does not exist afterwards. (The exits taken before
  the transcription stage, which are validation, conversion failure and extraction
  failure, do not touch that path.)
\<close>

theorem audio_artifact_deleted_after_extraction:
  assumes "\<not> remove_fails env (OUTPUT_AUDIO_FILENAME env)"
    and "process_video_complete env req w = (Inr (body, st), w')"
    and "st = 200 \<or> body ''error'' = Some (JStr ''Transcription failed'')
         \<or> (\<exists>m. body ''error'' = Some (JStr (''Error processing video: '' @ m)))"
  shows "files w' (OUTPUT_AUDIO_FILENAME env) = None"
proof -
  show ?thesis
    using assms(2,3)
    apply (simp add: process_video_complete_def Let_def
        split: option.splits if_splits prod.splits sum.splits)
    apply (auto simp add: error_only_def dest: run_pipeline_audio_gone[OF assms(1)])
    done
qed

lemma run_ok_mp4:
  "\<exists>body w'. process_video_complete env_ok mp4_request empty_world = (Inr (body, 200), w')"
  by (simp add: eval_ok)

theorem audio_artifact_deleted_after_extraction_witness:
  "\<not> remove_fails env_ok (OUTPUT_AUDIO_FILENAME env_ok)
   \<and> (\<exists>body w'. process_video_complete env_ok mp4_request empty_world = (Inr (body, 200), w')
         \<and> files w' (OUTPUT_AUDIO_FILENAME env_ok) = None)"
proof -
  have nf: "\<not> remove_fails env_ok (OUTPUT_AUDIO_FILENAME env_ok)"
    by (simp add: env_ok_simps)
  obtain body w' where
    run: "process_video_complete env_ok mp4_request empty_world = (Inr (body, 200), w')"
    using run_ok_mp4 by blast
  have "files w' (OUTPUT_AUDIO_FILENAME env_ok) = None"
    by (rule audio_artifact_deleted_after_extraction [OF nf run]) simp
  with nf run show ?thesis by blast
qed

section \<open>The normalised file and the original upload\<close>

lemma gemini_stage_files:
  "gemini_stage env q t a v results w = (r, w') \<Longrightarrow> files w' = files w"
  by (auto simp add: gemini_stage_def log_event_def Let_def
      split: if_splits sum.splits option.splits)

lemma analyze_and_finish_reaches_finish:
  assumes "analyze_and_finish env q fp orig t results0 w = (Inr resp, w')"
  shows "\<exists>results3 w3. files w3 = files w \<and> finish env fp orig results3 w3 = (Inr resp, w')"
  using assms
  apply (auto simp add: analyze_and_finish_def log_event_def Let_def
      split: sum.splits prod.splits dest!: gemini_stage_files)
  apply blast
  done

lemma process_stages_reaches_finish:
  assumes "process_stages env q fname fp orig w = (Inr (body, 200), w')"
  shows "\<exists>results3 w3.
           files w3 = extract_audio_effect env fp (OUTPUT_AUDIO_FILENAME env) (files w)
           \<and> finish env fp orig results3 w3 = (Inr (body, 200), w')"
  using assms
  apply (simp add: process_stages_def Let_def
      split: sum.splits prod.splits if_splits option.splits)
  apply (auto dest!: analyze_and_finish_reaches_finish simp add: log_event_def)
  apply blast
  done

lemma run_pipeline_reaches_finish:
  assumes "run_pipeline env q fname fp orig w = (Inr (body, 200), w')"
  shows "\<exists>results3 w3.
           files w3 = extract_audio_effect env fp (OUTPUT_AUDIO_FILENAME env) (files w)
           \<and> finish env fp orig results3 w3 = (Inr (body, 200), w')"
  using assms
  apply (simp add: run_pipeline_def split: sum.splits prod.splits)
   apply (simp add: handle_fault_def Let_def)
  apply (auto dest!: process_stages_reaches_finish)
  done

lemma remove_quietly_other:
  "p \<noteq> q \<Longrightarrow> files (remove_quietly env q w) p = files w p"
  by (simp add: remove_quietly_def os_path_exists_def os_remove_def)

lemma finish_keeps_and_removes:
  assumes "finish env fp orig results w = (r, w')"
    and "fp \<noteq> orig" and "fp \<noteq> OUTPUT_AUDIO_FILENAME env" and "\<not> remove_fails env orig"
  shows "files w' fp = files w fp \<and> files w' orig = None"
  using assms
  by (auto simp add: finish_def Let_def remove_quietly_other remove_quietly_gone)

text \<open>
  C1, amended. When normalisation runs and succeeds and the handler leaves by the success
  response, the normalised file exists afterwards and the original upload does not,
  provided that temporary names are fresh, that the audio extraction leaves files other
  than its output in place, that the allocated path is not the audio path and that deleting
  the original does not fail.
\<close>

theorem normalized_kept_original_removed_on_success:
  assumes fresh: "\<forall>fs p. mkstemp env ''.mp4'' UPLOAD_FOLDER fs = Inr p \<longrightarrow> fs p = None"
    and frame: "\<forall>src out fs p. p \<noteq> out \<longrightarrow> fs p \<noteq> None
                  \<longrightarrow> extract_audio_effect env src out fs p \<noteq> None"
    and upload: "video req = Some file" "filename file = Some raw"
    and webm: "endswith (lower (secure_filename env raw)) ''.webm''"
    and orig: "orig = os_path_join UPLOAD_FOLDER (secure_filename env raw)"
    and conv: "convert_webm_to_mp4 env orig (file_save orig (content file) w)
                 = (Inr (Some mp4), w2)"
    and audio: "mp4 \<noteq> OUTPUT_AUDIO_FILENAME env"
    and removable: "\<not> remove_fails env orig"
    and run: "process_video_complete env req w = (Inr (body, 200), w')"
  shows "files w' mp4 \<noteq> None \<and> files w' orig = None"
proof -
  from conv have ne: "exists_nonempty w2 mp4"
    and alloc: "mkstemp env ''.mp4'' UPLOAD_FOLDER (files (file_save orig (content file) w)) = Inr mp4"
    by (auto dest: convert_success_nonempty)
  from alloc fresh have "files (file_save orig (content file) w) mp4 = None" by blast
  then have diff: "mp4 \<noteq> orig" by (auto simp add: file_save_def)
  from ne have there: "files w2 mp4 \<noteq> None"
    by (auto simp add: exists_nonempty_def split: option.splits)
  from run upload webm orig conv obtain q where
    pipe: "run_pipeline env q (os_path_basename mp4) mp4 orig w2 = (Inr (body, 200), w')"
    by (auto simp add: process_video_complete_def Let_def split: if_splits option.splits)
  then obtain results3 w3 where
    w3: "files w3 = extract_audio_effect env mp4 (OUTPUT_AUDIO_FILENAME env) (files w2)"
    and fin: "finish env mp4 orig results3 w3 = (Inr (body, 200), w')"
    by (auto dest!: run_pipeline_reaches_finish)
  from frame audio there w3 have "files w3 mp4 \<noteq> None" by simp
  moreover from finish_keeps_and_removes [OF fin diff audio removable]
  have "files w' mp4 = files w3 mp4 \<and> files w' orig = None" .
  ultimately show ?thesis by simp
qed


text \<open>The handler of unhandled faults deletes the converted file.\<close>

lemma handle_fault_removes_converted:
  assumes "fp \<noteq> orig" and "\<not> remove_fails env fp"
  shows "files (snd (handle_fault env e fname fp orig w)) fp = None"
  using assms by (simp add: handle_fault_def Let_def remove_quietly_gone)

lemma convert_ok_webm:
  "convert_webm_to_mp4 env_ok ''uploads/talk.webm''
     (file_save ''uploads/talk.webm'' ''webm-data'' empty_world)
   = (Inr (Some ''uploads/tmp0.mp4''),
      \<lparr> files = [''uploads/talk.webm'' \<mapsto> ''webm-data'', ''uploads/tmp0.mp4'' \<mapsto> ''mp4-data''],
        events = [ConvertCalled ''uploads/talk.webm'',
                  EncoderRun (ffmpeg_cmd ''uploads/talk.webm'' ''uploads/tmp0.mp4'')] \<rparr>)"
  by (simp add: eval_ok)

lemma run_ok_webm:
  "\<exists>body w'. process_video_complete env_ok webm_request empty_world = (Inr (body, 200), w')"
  by (simp add: eval_ok)

theorem normalized_kept_original_removed_on_success_witness:
  "endswith (lower (secure_filename env_ok ''talk.webm'')) ''.webm''
   \<and> fst (convert_webm_to_mp4 env_ok ''uploads/talk.webm''
             (file_save ''uploads/talk.webm'' ''webm-data'' empty_world))
       = Inr (Some ''uploads/tmp0.mp4'')
   \<and> ''uploads/tmp0.mp4'' \<noteq> OUTPUT_AUDIO_FILENAME env_ok
   \<and> \<not> remove_fails env_ok ''uploads/talk.webm''
   \<and> (\<exists>body w'. process_video_complete env_ok webm_request empty_world = (Inr (body, 200), w')
         \<and> files w' ''uploads/tmp0.mp4'' \<noteq> None \<and> files w' ''uploads/talk.webm'' = None)"
proof -
  have fresh: "\<forall>fs p. mkstemp env_ok ''.mp4'' UPLOAD_FOLDER fs = Inr p \<longrightarrow> fs p = None"
    by (auto simp add: env_ok_simps two_names_uploads split: if_splits)
  have frame: "\<forall>src out fs p. p \<noteq> out \<longrightarrow> fs p \<noteq> None
                 \<longrightarrow> extract_audio_effect env_ok src out fs p \<noteq> None"
    by (simp add: env_ok_simps)
  have upload: "video webm_request = Some \<lparr> filename = Some ''talk.webm'', content = ''webm-data'' \<rparr>"
    "filename \<lparr> filename = Some ''talk.webm'', content = ''webm-data'' \<rparr> = Some ''talk.webm''"
    by (simp_all add: webm_request_def)
  have webm: "endswith (lower (secure_filename env_ok ''talk.webm'')) ''.webm''"
    by (simp add: env_ok_simps names_webm)
  have orig: "''uploads/talk.webm'' = os_path_join UPLOAD_FOLDER (secure_filename env_ok ''talk.webm'')"
    by (simp add: env_ok_simps names_webm)
  have conv: "convert_webm_to_mp4 env_ok ''uploads/talk.webm''
       (file_save ''uploads/talk.webm''
          (content \<lparr> filename = Some ''talk.webm'', content = ''webm-data'' \<rparr>) empty_world)
     = (Inr (Some ''uploads/tmp0.mp4''),
        \<lparr> files = [''uploads/talk.webm'' \<mapsto> ''webm-data'', ''uploads/tmp0.mp4'' \<mapsto> ''mp4-data''],
          events = [ConvertCalled ''uploads/talk.webm'',
                    EncoderRun (ffmpeg_cmd ''uploads/talk.webm'' ''uploads/tmp0.mp4'')] \<rparr>)"
    using convert_ok_webm by simp
  have audio: "''uploads/tmp0.mp4'' \<noteq> OUTPUT_AUDIO_FILENAME env_ok"
    by (simp add: env_ok_simps)
  have removable: "\<not> remove_fails env_ok ''uploads/talk.webm''"
    by (simp add: env_ok_simps)
  obtain body w' where
    run: "process_video_complete env_ok webm_request empty_world = (Inr (body, 200), w')"
    using run_ok_webm by blast
  from normalized_kept_original_removed_on_success
    [OF fresh frame upload webm orig conv audio removable run]
  have "files w' ''uploads/tmp0.mp4'' \<noteq> None \<and> files w' ''uploads/talk.webm'' = None" .
  with webm convert_ok_webm audio removable run show ?thesis
    by auto
qed

text \<open>
  C1, as stated: after every exit, also an unhandled fault inside the processing stages,
  the normalised \<^verbatim>\<open>.mp4\<close> exists and the original \<^verbatim>\<open>.webm\<close> does not. The handler of
  unhandled faults (lines 269 to 274) deletes the converted file and does not touch the
  original: with an audio analyser that raises, the conversion of \<^verbatim>\<open>talk.webm\<close> succeeds,
  the response is the unhandled-fault one, and afterwards the normalised file is gone and
  the original is still there.
\<close>

theorem unhandled_fault_removes_normalized_keeps_original:
  "fst (convert_webm_to_mp4 env_analyzer_raises ''uploads/talk.webm''
          (file_save ''uploads/talk.webm'' ''webm-data'' empty_world))
     = Inr (Some ''uploads/tmp0.mp4'')
   \<and> fst (process_video_complete env_analyzer_raises webm_request empty_world)
       = Inr ([''error'' \<mapsto> JStr ''Error processing video: boom'',
               ''video_file'' \<mapsto> JStr ''tmp0.mp4''], 500)
   \<and> files (snd (process_video_complete env_analyzer_raises webm_request empty_world))
         ''uploads/tmp0.mp4'' = None
   \<and> files (snd (process_video_complete env_analyzer_raises webm_request empty_world))
         ''uploads/talk.webm'' = Some ''webm-data''"
  by (simp add: eval_ok env_analyzer_raises_def)

section \<open>Degraded analysis stages\<close>



lemma format_video_degraded:
  assumes "vm = None \<or> vm = Some [] \<or> (\<exists>kvs. vm = Some kvs \<and> ''error'' \<in> fst ` set kvs)"
  shows "format_video_metrics env vm = Inr []"
  using assms by (force simp add: format_video_metrics_def)




section \<open>The analysis text of the service\<close>

lemma find_from_absent: "c \<notin> set s \<Longrightarrow> find_from c s n = -1"
  by (induction s arbitrary: n) auto

lemma find_from_first:
  "i < length s \<Longrightarrow> s ! i = c \<Longrightarrow> (\<forall>k<i. s ! k \<noteq> c) \<Longrightarrow> find_from c s n = n + int i"
proof (induction s arbitrary: i n)
  case Nil
  then show ?case by simp
next
  case (Cons x xs)
  show ?case
  proof (cases i)
    case 0
    with Cons.prems show ?thesis by simp
  next
    case (Suc i')
    with Cons.prems have "x \<noteq> c" by auto
    moreover from Suc Cons.prems have "find_from c xs (n + 1) = (n + 1) + int i'"
      by (intro Cons.IH) auto
    ultimately show ?thesis using Suc by simp
  qed
qed

lemma rfind_from_absent: "c \<notin> set s \<Longrightarrow> rfind_from c s n best = best"
  by (induction s arbitrary: n best) auto

lemma rfind_from_last:
  "j < length s \<Longrightarrow> s ! j = c \<Longrightarrow> (\<forall>k. j < k \<and> k < length s \<longrightarrow> s ! k \<noteq> c)
     \<Longrightarrow> rfind_from c s n best = n + int j"
proof (induction s arbitrary: j n best)
  case Nil
  then show ?case by simp
next
  case (Cons x xs)
  show ?case
  proof (cases j)
    case 0
    have "c \<notin> set xs"
    proof
      assume "c \<in> set xs"
      then obtain k where "k < length xs" "xs ! k = c" by (auto simp add: in_set_conv_nth)
      with Cons.prems(3) 0 show False by (auto dest: spec [where x = "Suc k"])
    qed
    with 0 Cons.prems show ?thesis by (simp add: rfind_from_absent)
  next
    case (Suc j')
    from Suc Cons.prems have "rfind_from c xs (n + 1) (if x = c then n else best) = (n + 1) + int j'"
      by (intro Cons.IH) auto
    with Suc show ?thesis by simp
  qed
qed

lemma first_index_exists:
  "c \<in> set s \<Longrightarrow> \<exists>i<length s. s ! i = c \<and> (\<forall>k<i. s ! k \<noteq> c)"
proof -
  assume "c \<in> set s"
  then obtain i0 where i0: "i0 < length s \<and> s ! i0 = c" by (auto simp add: in_set_conv_nth)
  define i where "i = (LEAST i. i < length s \<and> s ! i = c)"
  from i0 have "i < length s \<and> s ! i = c" unfolding i_def by (rule LeastI)
  moreover have "\<forall>k<i. s ! k \<noteq> c"
  proof (intro allI impI notI)
    fix k assume "k < i" "s ! k = c"
    with \<open>i < length s \<and> s ! i = c\<close> have "k < length s \<and> s ! k = c" by simp
    then have "i \<le> k" unfolding i_def by (rule Least_le)
    with \<open>k < i\<close> show False by simp
  qed
  ultimately show ?thesis by blast
qed

lemma last_index_exists:
  "c \<in> set s \<Longrightarrow> \<exists>j<length s. s ! j = c \<and> (\<forall>k. j < k \<and> k < length s \<longrightarrow> s ! k \<noteq> c)"
proof -
  assume "c \<in> set s"
  then have "c \<in> set (rev s)" by simp
  from first_index_exists [OF this] obtain i where
    i: "i < length s" "rev s ! i = c" "\<forall>k<i. rev s ! k \<noteq> c" by auto
  let ?j = "length s - Suc i"
  from i have "?j < length s" "s ! ?j = c" by (auto simp add: rev_nth)
  moreover have "\<forall>k. ?j < k \<and> k < length s \<longrightarrow> s ! k \<noteq> c"
  proof (intro allI impI)
    fix k assume k: "?j < k \<and> k < length s"
    then have "length s - Suc k < i" by arith
    with i(3) have "rev s ! (length s - Suc k) \<noteq> c" by blast
    moreover have "rev s ! (length s - Suc k) = s ! k"
    proof -
      from k have a: "length s - Suc k < length s" by arith
      from k have b: "length s - Suc (length s - Suc k) = k" by arith
      from rev_nth [OF a] b show ?thesis by simp
    qed
    ultimately show "s ! k \<noteq> c" by simp
  qed
  ultimately show ?thesis by blast
qed

lemma slice_from_to:
  "i \<le> j \<Longrightarrow> slice s (int i) (int j + 1) = take (j + 1 - i) (drop i s)"
  by (simp add: slice_def nat_add_distrib)

text \<open>The synthesis stage hands an analysis payload to \<open>store_analysis\<close>.\<close>

lemma gemini_stage_stores_analysis:
  assumes "GEMINI_API_KEY env = Some k" and "k \<noteq> []"
    and "analyze_video_with_gemini env q t a v = Inr g" and "g ''analysis'' = Some s"
  shows "fst (gemini_stage env q t a v results w) = store_analysis env s results"
  using assms by (simp add: gemini_stage_def Let_def)

text \<open>
  C6, amended. Let the analysis payload \<open>s\<close> have its first \<^verbatim>\<open>{\<close> at index \<open>i\<close> and its last
  \<^verbatim>\<open>}\<close> at index \<open>j \<ge> i\<close>. Then the stored analysis field is the parse of \<open>s[i..j]\<close> when
  the parser returns a value, and the raw text \<open>s\<close> when the parser raises
  \<^verbatim>\<open>JSONDecodeError\<close>; any other exception of the parser is raised on and nothing is stored.
  When \<open>s\<close> has no \<^verbatim>\<open>{\<close> followed, at the same or a later index, by a \<^verbatim>\<open>}\<close>, the stored
  field is the raw text.
\<close>

theorem analysis_field_from_brace_span:
  "(i < length s \<and> s ! i = CHR ''{'' \<and> (\<forall>k<i. s ! k \<noteq> CHR ''{'')
      \<and> j < length s \<and> s ! j = CHR ''}'' \<and> (\<forall>k. j < k \<and> k < length s \<longrightarrow> s ! k \<noteq> CHR ''}'')
      \<and> i \<le> j
    \<longrightarrow> store_analysis env s results
        = (case json_loads env (take (j + 1 - i) (drop i s)) of
             Inr parsed \<Rightarrow> Inr (results(''gemini_analysis'' \<mapsto> parsed))
           | Inl (JSONDecodeError m) \<Rightarrow> Inr (results(''gemini_analysis'' \<mapsto> JStr s))
           | Inl e \<Rightarrow> Inl e))
   \<and> ((\<forall>i j. i \<le> j \<and> j < length s \<and> s ! i = CHR ''{'' \<longrightarrow> s ! j \<noteq> CHR ''}'')
    \<longrightarrow> store_analysis env s results = Inr (results(''gemini_analysis'' \<mapsto> JStr s)))"
proof (intro conjI impI)
  assume h: "i < length s \<and> s ! i = CHR ''{'' \<and> (\<forall>k<i. s ! k \<noteq> CHR ''{'')
      \<and> j < length s \<and> s ! j = CHR ''}'' \<and> (\<forall>k. j < k \<and> k < length s \<longrightarrow> s ! k \<noteq> CHR ''}'')
      \<and> i \<le> j"
  then have start: "str_find s CHR ''{'' = int i"
    using find_from_first [of i s "CHR ''{''" 0] by (simp add: str_find_def)
  from h have stop: "str_rfind s CHR ''}'' = int j"
    using rfind_from_last [of j s "CHR ''}''" 0 "-1"] by (simp add: str_rfind_def)
  from h have "i \<le> j" by simp
  with start stop show "store_analysis env s results
        = (case json_loads env (take (j + 1 - i) (drop i s)) of
             Inr parsed \<Rightarrow> Inr (results(''gemini_analysis'' \<mapsto> parsed))
           | Inl (JSONDecodeError m) \<Rightarrow> Inr (results(''gemini_analysis'' \<mapsto> JStr s))
           | Inl e \<Rightarrow> Inl e)"
    by (simp add: store_analysis_def Let_def slice_from_to split: sum.splits exn.splits)
next
  assume none: "\<forall>i j. i \<le> j \<and> j < length s \<and> s ! i = CHR ''{'' \<longrightarrow> s ! j \<noteq> CHR ''}''"
  show "store_analysis env s results = Inr (results(''gemini_analysis'' \<mapsto> JStr s))"
  proof (cases "CHR ''{'' \<in> set s")
    case False
    then have "str_find s CHR ''{'' = -1" by (simp add: str_find_def find_from_absent)
    then show ?thesis by (simp add: store_analysis_def Let_def)
  next
    case True
    from first_index_exists [OF True] obtain i0 where
      i0: "i0 < length s" "s ! i0 = CHR ''{''" "\<forall>k<i0. s ! k \<noteq> CHR ''{''" by blast
    then have start: "str_find s CHR ''{'' = int i0"
      using find_from_first [of i0 s "CHR ''{''" 0] by (simp add: str_find_def)
    show ?thesis
    proof (cases "CHR ''}'' \<in> set s")
      case False
      then have "str_rfind s CHR ''}'' = -1" by (simp add: str_rfind_def rfind_from_absent)
      with start show ?thesis by (simp add: store_analysis_def Let_def)
    next
      case True
      from last_index_exists [OF True] obtain j0 where
        j0: "j0 < length s" "s ! j0 = CHR ''}''"
          "\<forall>k. j0 < k \<and> k < length s \<longrightarrow> s ! k \<noteq> CHR ''}''" by blast
      then have stop: "str_rfind s CHR ''}'' = int j0"
        using rfind_from_last [of j0 s "CHR ''}''" 0 "-1"] by (simp add: str_rfind_def)
      from none i0 j0 have "\<not> i0 \<le> j0" by blast
      with start stop show ?thesis by (simp add: store_analysis_def Let_def)
    qed
  qed
qed


lemma below_3: "k < (3::nat) \<longleftrightarrow> k = 0 \<or> k = 1 \<or> k = 2"
  by arith

theorem analysis_field_from_brace_span_witness:
  "store_analysis env_ok ''ok {} done'' Map.empty = Inr [''gemini_analysis'' \<mapsto> JDict []]
   \<and> store_analysis env_ok ''{nope}'' Map.empty = Inr [''gemini_analysis'' \<mapsto> JStr ''{nope}'']
   \<and> store_analysis env_ok ''no braces'' Map.empty
       = Inr [''gemini_analysis'' \<mapsto> JStr ''no braces'']"
proof -
  let ?s1 = "''ok {} done''"
  have h1: "3 < length ?s1 \<and> ?s1 ! 3 = CHR ''{'' \<and> (\<forall>k<3. ?s1 ! k \<noteq> CHR ''{'')
      \<and> 4 < length ?s1 \<and> ?s1 ! 4 = CHR ''}''
      \<and> (\<forall>k. 4 < k \<and> k < length ?s1 \<longrightarrow> ?s1 ! k \<noteq> CHR ''}'') \<and> (3::nat) \<le> 4"
    by (auto simp add: below_3 nth_Cons' )
  let ?s2 = "''{nope}''"
  have h2: "0 < length ?s2 \<and> ?s2 ! 0 = CHR ''{'' \<and> (\<forall>k<0. ?s2 ! k \<noteq> CHR ''{'')
      \<and> 5 < length ?s2 \<and> ?s2 ! 5 = CHR ''}''
      \<and> (\<forall>k. 5 < k \<and> k < length ?s2 \<longrightarrow> ?s2 ! k \<noteq> CHR ''}'') \<and> (0::nat) \<le> 5"
    by (auto simp add: nth_Cons')
  let ?s3 = "''no braces''"
  have h3: "\<forall>i j. i \<le> j \<and> j < length ?s3 \<and> ?s3 ! i = CHR ''{'' \<longrightarrow> ?s3 ! j \<noteq> CHR ''}''"
    by (auto simp add: nth_Cons' split: if_splits)
  from analysis_field_from_brace_span [of 3 ?s1 4 env_ok Map.empty] h1
  have "store_analysis env_ok ?s1 Map.empty = Inr [''gemini_analysis'' \<mapsto> JDict []]"
    by (simp add: env_ok_simps)
  moreover from analysis_field_from_brace_span [of 0 ?s2 5 env_ok Map.empty] h2
  have "store_analysis env_ok ?s2 Map.empty = Inr [''gemini_analysis'' \<mapsto> JStr ?s2]"
    by (simp add: env_ok_simps)
  moreover from analysis_field_from_brace_span [of 0 ?s3 0 env_ok Map.empty] h3
  have "store_analysis env_ok ?s3 Map.empty = Inr [''gemini_analysis'' \<mapsto> JStr ?s3]"
    by blast
  ultimately show ?thesis by blast
qed

lemma rfind_from_last_char:
  "rfind_from c (xs @ [c]) n best = n + int (length xs)"
  by (induction xs arbitrary: n best) auto

lemma deep_payload_shape: "\<exists>xs. deep_payload = CHR ''{'' # xs @ ''}''"
  unfolding deep_payload_def nested_object.simps(2)
  by (rule exI [of _ "[CHR 0x22] @ ''a'' @ [CHR 0x22] @ '':'' @ nested_object 99999"]) simp

lemma env_deep_nesting_simps:
  "secure_filename env_deep_nesting = secure_filename env_ok"
  "mkstemp env_deep_nesting = mkstemp env_ok"
  "encoder_exit env_deep_nesting = encoder_exit env_ok"
  "encoder_effect env_deep_nesting = encoder_effect env_ok"
  "extract_audio env_deep_nesting = extract_audio env_ok"
  "extract_audio_effect env_deep_nesting = extract_audio_effect env_ok"
  "transcribe_audio env_deep_nesting = transcribe_audio env_ok"
  "analyze_audio_features env_deep_nesting = analyze_audio_features env_ok"
  "analyze_video_features env_deep_nesting = analyze_video_features env_ok"
  "analyze_video_with_gemini env_deep_nesting = (\<lambda>q t a v. Inr [''analysis'' \<mapsto> deep_payload])"
  "json_loads env_deep_nesting = (\<lambda>s. Inl (OtherError ''maximum recursion depth exceeded''))"
  "str_of env_deep_nesting = str_of env_ok"
  "remove_fails env_deep_nesting = remove_fails env_ok"
  "GEMINI_API_KEY env_deep_nesting = GEMINI_API_KEY env_ok"
  "OUTPUT_AUDIO_FILENAME env_deep_nesting = OUTPUT_AUDIO_FILENAME env_ok"
  by (simp_all add: env_deep_nesting_def)

lemma store_analysis_deep:
  "store_analysis env_deep_nesting deep_payload r
     = Inl (OtherError ''maximum recursion depth exceeded'')"
proof -
  from deep_payload_shape obtain xs where s: "deep_payload = CHR ''{'' # xs @ ''}''" by blast
  have "str_find deep_payload CHR ''{'' = 0" by (simp add: s str_find_def)
  moreover have "str_rfind deep_payload CHR ''}'' = 1 + int (length xs)"
    using rfind_from_last_char [of "CHR ''}''" xs 1 "-1"]
    by (simp add: s str_rfind_def)
  ultimately show ?thesis
    by (simp add: store_analysis_def Let_def env_deep_nesting_simps)
qed

lemma gemini_stage_deep:
  "gemini_stage env_deep_nesting q t a v r w
     = (Inl (OtherError ''maximum recursion depth exceeded''), log_event (Gemini q t a v) w)"
  by (simp add: gemini_stage_def Let_def store_analysis_deep env_deep_nesting_simps env_ok_simps)

text \<open>
  C6, as stated: the stored analysis field is the parse of the brace span when it is valid
  JSON and the raw text when parsing fails. Line 229 catches \<^verbatim>\<open>json.JSONDecodeError\<close> only:
  on a JSON object nested too deep the parser raises \<^verbatim>\<open>RecursionError\<close>, nothing is stored,
  and the request ends in the handler of unhandled faults with status 500 and no analysis
  field.
\<close>

theorem parser_fault_stores_no_analysis:
  "store_analysis env_deep_nesting deep_payload Map.empty
     = Inl (OtherError ''maximum recursion depth exceeded'')
   \<and> status_of (process_video_complete env_deep_nesting mp4_request empty_world) = Some 500
   \<and> field_of (process_video_complete env_deep_nesting mp4_request empty_world) ''error''
       = Some (JStr ''Error processing video: maximum recursion depth exceeded'')
   \<and> field_of (process_video_complete env_deep_nesting mp4_request empty_world)
         ''gemini_analysis'' = None"
  by (simp add: store_analysis_deep status_of_def field_of_def
      process_video_complete_def run_pipeline_def process_stages_def analyze_and_finish_def
      gemini_stage_deep finish_def handle_fault_def remove_quietly_def file_save_def
      error_only_def Let_def convert_defs names_mp4 format_defs labels str_plain_values
      mp4_request_def empty_world_def env_deep_nesting_simps env_ok_simps)

section \<open>The metric blocks\<close>

lemma upper_char_of_lower: "is_lower c \<Longrightarrow> is_upper (upper_char c) \<and> \<not> is_lower (upper_char c)"
  by (auto simp add: is_lower_def is_upper_def upper_char_def Let_def)

lemma upper_char_of_upper: "is_upper c \<Longrightarrow> upper_char c = c"
  by (auto simp add: is_lower_def is_upper_def upper_char_def Let_def)

lemma lower_char_of_upper: "is_upper c \<Longrightarrow> is_lower (lower_char c) \<and> \<not> is_upper (lower_char c)"
  by (auto simp add: is_lower_def is_upper_def lower_char_def Let_def)

lemma lower_char_of_lower: "is_lower c \<Longrightarrow> lower_char c = c"
  by (auto simp add: is_lower_def is_upper_def lower_char_def Let_def)

lemma not_both_cases: "is_lower c \<Longrightarrow> \<not> is_upper c"
  by (auto simp add: is_lower_def is_upper_def Let_def)

lemma title_from_title_cased: "title_cased_from prev (title_from prev s)"
proof (induction s arbitrary: prev)
  case Nil
  then show ?case by simp
next
  case (Cons c cs)
  consider (low) "is_lower c" | (up) "is_upper c" | (other) "\<not> is_lower c" "\<not> is_upper c"
    by blast
  then show ?case
  proof cases
    case low
    with Cons.IH [of True] show ?thesis
      by (cases prev) (auto simp add: lower_char_of_lower upper_char_of_lower)
  next
    case up
    then have "\<not> is_lower c" using not_both_cases by blast
    with up Cons.IH [of True] show ?thesis
      by (cases prev) (auto simp add: upper_char_of_upper lower_char_of_upper)
  next
    case other
    with Cons.IH [of False] show ?thesis by simp
  qed
qed

lemma underscore_uncased: "\<not> is_lower CHR ''_''" "\<not> is_upper CHR ''_''"
  by (simp_all add: is_lower_def is_upper_def)

lemma title_from_no_underscore:
  "CHR ''_'' \<notin> set s \<Longrightarrow> CHR ''_'' \<notin> set (title_from prev s)"
proof (induction s arbitrary: prev)
  case Nil
  then show ?case by simp
next
  case (Cons c cs)
  then have rest: "CHR ''_'' \<notin> set (title_from b cs)" for b by simp
  from Cons.prems have c: "c \<noteq> CHR ''_''" by auto
  have "is_lower c \<Longrightarrow> upper_char c \<noteq> CHR ''_''"
    using upper_char_of_lower underscore_uncased by metis
  moreover have "is_upper c \<Longrightarrow> lower_char c \<noteq> CHR ''_''"
    using lower_char_of_upper underscore_uncased by metis
  ultimately show ?case
    using rest c
    by (auto simp add: lower_char_of_lower upper_char_of_upper)
qed

lemma label_title_cased: "title_cased (label key) \<and> CHR ''_'' \<notin> set (label key)"
proof -
  have "CHR ''_'' \<notin> set (replace_char CHR ''_'' CHR '' '' key)"
    by (auto simp add: replace_char_def)
  then show ?thesis
    by (simp add: label_def title_def title_cased_def title_from_title_cased
        title_from_no_underscore)
qed

lemma audio_lines_concat:
  "audio_lines env kvs acc = acc @ concat (map (\<lambda>(key, val). inline_line env key val) kvs)"
  by (induction kvs arbitrary: acc) (auto simp add: inline_line_def)

lemma emotion_lines_concat:
  "emotion_lines env kvs acc = acc @ concat (map (sub_line env) kvs)"
  by (induction kvs arbitrary: acc) (auto simp add: sub_line_def)

lemma video_lines_concat:
  assumes "\<forall>(key, val) \<in> set kvs. key = ''emotion_distribution'' \<longrightarrow> (\<exists>d. val = JDict d)"
  shows "video_lines env kvs acc = Inr (acc @ concat (map (video_metric_line env) kvs))"
  using assms
proof (induction kvs arbitrary: acc)
  case Nil
  then show ?case by simp
next
  case (Cons kv kvs)
  obtain key val where kv: "kv = (key, val)" by (cases kv)
  from Cons.prems have rest:
    "\<forall>(key, val) \<in> set kvs. key = ''emotion_distribution'' \<longrightarrow> (\<exists>d. val = JDict d)"
    by simp
  show ?case
  proof (cases "key = ''emotion_distribution''")
    case True
    with Cons.prems kv obtain d where d: "val = JDict d" by auto
    with True kv Cons.IH [OF rest] show ?thesis
      by (simp add: emotion_lines_concat nested_lines_def)
  next
    case False
    with kv Cons.IH [OF rest] show ?thesis
      by (cases val) (simp_all add: inline_line_def)
  qed
qed

text \<open>
  C8, amended. Every metric key is rendered as a title-cased label in which spaces stand
  for the underscores. In the audio block every metric is rendered on one line,
  \<^verbatim>\<open>- Label: value\<close>, a nested mapping included. In the video block the metric with the key
  \<^verbatim>\<open>emotion_distribution\<close>, a nested mapping, is rendered as its label followed by one
  indented \<^verbatim>\<open>key: value\<close> line for each entry; every other metric is rendered on one line.
\<close>

theorem metric_blocks_rendering:
  assumes "am \<noteq> []" and "vm \<noteq> []" and "''error'' \<notin> fst ` set vm"
    and "\<forall>(key, val) \<in> set vm. key = ''emotion_distribution'' \<longrightarrow> (\<exists>d. val = JDict d)"
  shows "format_audio_metrics env (Some am)
           = ''Audio Analysis:'' @ nl @ concat (map (\<lambda>(key, val). inline_line env key val) am)
     \<and> format_video_metrics env (Some vm)
           = Inr (''Video Analysis:'' @ nl @ concat (map (video_metric_line env) vm))
     \<and> title_cased (label key) \<and> CHR ''_'' \<notin> set (label key)"
  using assms
  by (simp add: format_audio_metrics_def format_video_metrics_def audio_lines_concat
      video_lines_concat label_title_cased)

text \<open>
  C8, as stated: every metric whose value is a nested mapping is rendered as its label
  followed by an indented sub-list. The audio loop (lines 190 and 191) has one rendering for
  every value: the audio metric \<^verbatim>\<open>pitch\<close> with the nested mapping \<^verbatim>\<open>{'low': 1}\<close> is rendered
  on one line, which is not the rendering of the rule.
\<close>

theorem nested_audio_metric_rendered_inline:
  "format_audio_metrics env_ok (Some [(''pitch'', JDict [(''low'', JInt 1)])])
     = ''Audio Analysis:'' @ nl @ ''- Pitch: {'' @ quoted ''low'' @ '': 1}'' @ nl
   \<and> ''Audio Analysis:'' @ nl @ spec_metric_line env_ok (''pitch'', JDict [(''low'', JInt 1)])
     = ''Audio Analysis:'' @ nl @ ''- Pitch:'' @ nl @ ''  - low: 1'' @ nl
   \<and> format_audio_metrics env_ok (Some [(''pitch'', JDict [(''low'', JInt 1)])])
     \<noteq> ''Audio Analysis:'' @ nl @ spec_metric_line env_ok (''pitch'', JDict [(''low'', JInt 1)])"
  by code_simp


theorem metric_blocks_rendering_witness:
  "format_audio_metrics env_ok (Some [(''speaking_rate'', JInt 120)])
     = ''Audio Analysis:\<newline>- Speaking Rate: 120\<newline>''
   \<and> format_video_metrics env_ok
         (Some [(''emotion_distribution'', JDict [(''happy'', JInt 3)]), (''blink_rate'', JInt 3)])
     = Inr ''Video Analysis:\<newline>- Emotion Distribution:\<newline>  - happy: 3\<newline>- Blink Rate: 3\<newline>''
   \<and> title_cased (label ''speaking_rate'') \<and> CHR ''_'' \<notin> set (label ''speaking_rate'')"
proof -
  let ?am = "[(''speaking_rate'', JInt 120)]"
  let ?vm = "[(''emotion_distribution'', JDict [(''happy'', JInt 3)]), (''blink_rate'', JInt 3)]"
  have a: "?am \<noteq> []" and v: "?vm \<noteq> []" and e: "''error'' \<notin> fst ` set ?vm"
    and d: "\<forall>(key, val) \<in> set ?vm. key = ''emotion_distribution'' \<longrightarrow> (\<exists>d. val = JDict d)"
    by simp_all
  have blink: "label ''blink_rate'' = ''Blink Rate''" by code_simp
  from metric_blocks_rendering [OF a v e d, of env_ok "''speaking_rate''"]
  show ?thesis
    by (simp add: inline_line_def nested_lines_def sub_line_def nl_def labels blink
        str_plain_values env_ok_simps)
qed

section \<open>Running the same request again\<close>

lemma finish_fst:
  "fst (finish env fp orig results w) = Inr (results(''status'' \<mapsto> JStr ''complete''), 200)"
  by (simp add: finish_def Let_def)

lemma gemini_stage_fst:
  "fst (gemini_stage env q t a v results w1) = fst (gemini_stage env q t a v results w2)"
  by (simp add: gemini_stage_def Let_def split: sum.splits option.splits)

lemma after_gemini_fst:
  "fst (case gemini_stage env q t a v r w of
          (Inl e, w3) \<Rightarrow> (Inl e, w3)
        | (Inr results3, w3) \<Rightarrow> finish env fp orig results3 w3)
     = (case fst (gemini_stage env q t a v r w) of
          Inl e \<Rightarrow> Inl e
        | Inr results3 \<Rightarrow> Inr (results3(''status'' \<mapsto> JStr ''complete''), 200))"
  by (simp add: finish_fst split: prod.splits sum.splits)

lemma analyze_and_finish_fst:
  "fst (analyze_and_finish env q fp orig t results w1)
     = fst (analyze_and_finish env q fp orig t results w2)"
proof (cases "analyze_audio_features env (OUTPUT_AUDIO_FILENAME env) t")
  case (Inl e)
  then show ?thesis by (simp add: analyze_and_finish_def Let_def)
next
  case am: (Inr audio_metrics)
  show ?thesis
  proof (cases "analyze_video_features env fp")
    case (Inl e)
    with am show ?thesis by (simp add: analyze_and_finish_def Let_def)
  next
    case vm: (Inr video_metrics)
    show ?thesis
    proof (cases "format_video_metrics env video_metrics")
      case (Inl e)
      with am vm show ?thesis by (simp add: analyze_and_finish_def Let_def)
    next
      case (Inr video_metrics_str)
      with am vm show ?thesis
        unfolding analyze_and_finish_def Let_def
        apply (simp only: sum.case after_gemini_fst)
        apply (rule arg_cong [where f = "case_sum _ _"])
        apply (rule gemini_stage_fst)
        done
    qed
  qed
qed


lemma transcription_failed_fst:
  assumes "\<not> remove_fails env audio"
  shows "fst (if os_path_exists w audio
              then (case os_remove env audio w of
                      (Inl e, w3) \<Rightarrow> (Inl e, w3)
                    | (Inr u, w3) \<Rightarrow> (Inr failed, w3))
              else (Inr failed, w)) = Inr failed"
  using assms by (simp add: os_path_exists_def os_remove_def)

lemma process_stages_fst:
  assumes "\<not> remove_fails env (OUTPUT_AUDIO_FILENAME env)"
  shows "fst (process_stages env q fname fp orig w1) = fst (process_stages env q fname fp orig w2)"
proof (cases "extract_audio env fp (OUTPUT_AUDIO_FILENAME env)")
  case (Inl e)
  then show ?thesis by (simp add: process_stages_def Let_def)
next
  case ok: (Inr ok)
  show ?thesis
  proof (cases ok)
    case False
    with ok show ?thesis by (simp add: process_stages_def Let_def)
  next
    case True
    show ?thesis
    proof (cases "transcribe_audio env (OUTPUT_AUDIO_FILENAME env)")
      case (Inl e)
      with ok True show ?thesis by (simp add: process_stages_def Let_def)
    next
      case tr: (Inr transcript)
      show ?thesis
      proof (cases transcript)
        case None
        with ok True tr show ?thesis
          unfolding process_stages_def Let_def
          by (simp only: sum.case option.case if_True if_False not_True_eq_False
              transcription_failed_fst [OF assms])
      next
        case (Some t)
        with ok True tr show ?thesis
          unfolding process_stages_def Let_def
          by (simp only: sum.case option.case if_True if_False not_True_eq_False)
            (rule analyze_and_finish_fst)
      qed
    qed
  qed
qed

lemma run_pipeline_fst_eq:
  "fst (run_pipeline env q fname fp orig w)
     = (case fst (process_stages env q fname fp orig w) of
          Inr resp \<Rightarrow> Inr resp
        | Inl e \<Rightarrow> Inr ([''error'' \<mapsto> JStr (''Error processing video: '' @ str_exn e),
                          ''video_file'' \<mapsto> JStr fname], 500))"
  by (simp add: run_pipeline_def handle_fault_def Let_def split: prod.splits sum.splits)

lemma run_pipeline_fst:
  assumes "\<not> remove_fails env (OUTPUT_AUDIO_FILENAME env)"
  shows "fst (run_pipeline env q fname fp orig w1) = fst (run_pipeline env q fname fp orig w2)"
  by (simp only: run_pipeline_fst_eq process_stages_fst [OF assms, of q fname fp orig w1 w2])

text \<open>
  C9, amended. For a request whose sanitised filename does not end in \<^verbatim>\<open>.webm\<close> (or that
  has no file), with collaborators that are functions of their arguments and an audio
  file whose deletion does not fail, the response does not depend on the state of the
  file system: two runs, the second after the first or not, return the same status and the
  same body, the field \<^verbatim>\<open>video_file\<close> included.
\<close>

theorem response_repeats_without_conversion:
  assumes "\<not> needs_conversion env req"
    and "\<not> remove_fails env (OUTPUT_AUDIO_FILENAME env)"
  shows "fst (process_video_complete env req w1) = fst (process_video_complete env req w2)"
proof (cases "video req")
  case None
  then show ?thesis by (simp add: process_video_complete_def)
next
  case upl: (Some up)
  show ?thesis
  proof (cases "filename up")
    case None
    with upl show ?thesis by (simp add: process_video_complete_def Let_def)
  next
    case (Some raw)
    with upl assms(1) have plain: "\<not> endswith (lower (secure_filename env raw)) ''.webm''"
      by (simp add: needs_conversion_def)
    from run_pipeline_fst [OF assms(2)] upl Some plain show ?thesis
      by (simp add: process_video_complete_def Let_def)
  qed
qed


theorem response_repeats_without_conversion_witness:
  "\<not> needs_conversion env_ok mp4_request
   \<and> \<not> remove_fails env_ok (OUTPUT_AUDIO_FILENAME env_ok)
   \<and> fst (process_video_complete env_ok mp4_request
            (snd (process_video_complete env_ok mp4_request empty_world)))
       = fst (process_video_complete env_ok mp4_request empty_world)"
proof -
  have plain: "\<not> needs_conversion env_ok mp4_request"
    by (simp add: needs_conversion_def mp4_request_def env_ok_simps names_mp4)
  have removable: "\<not> remove_fails env_ok (OUTPUT_AUDIO_FILENAME env_ok)"
    by (simp add: env_ok_simps)
  from response_repeats_without_conversion [OF plain removable] plain removable
  show ?thesis by blast
qed

lemma first_run_webm:
  "process_video_complete env_ok webm_request empty_world =
     (Inr ([''video_file'' \<mapsto> JStr ''tmp0.mp4'',
            ''interview_question'' \<mapsto> JStr ''Describe your experience'',
            ''transcript'' \<mapsto> JStr ''hello'',
            ''audio_metrics'' \<mapsto> JDict [(''speaking_rate'', JInt 120)],
            ''video_metrics'' \<mapsto> JDict [(''emotion_distribution'', JDict [(''happy'', JInt 3)])],
            ''gemini_analysis'' \<mapsto> JDict [],
            ''status'' \<mapsto> JStr ''complete''], 200),
      \<lparr> files = [''uploads/tmp0.mp4'' \<mapsto> ''mp4-data''],
        events =
          [ConvertCalled ''uploads/talk.webm'',
           EncoderRun (ffmpeg_cmd ''uploads/talk.webm'' ''uploads/tmp0.mp4''),
           ExtractAudio ''uploads/tmp0.mp4'' ''extracted_audio.wav'',
           Transcribe ''extracted_audio.wav'',
           AnalyzeAudio ''extracted_audio.wav'' ''hello'',
           AnalyzeVideo ''uploads/tmp0.mp4'',
           Gemini ''Describe your experience'' ''hello''
             ''Audio Analysis:\<newline>- Speaking Rate: 120\<newline>''
             ''Video Analysis:\<newline>- Emotion Distribution:\<newline>  - happy: 3\<newline>''] \<rparr>)"
  by (simp add: eval_ok)

lemma second_run_webm:
  "\<exists>body w'. process_video_complete env_ok webm_request
       (snd (process_video_complete env_ok webm_request empty_world)) = (Inr (body, 200), w')
     \<and> body ''video_file'' = Some (JStr ''tmp1.mp4'')"
  unfolding first_run_webm by (simp add: eval_ok)

text \<open>
  C9, as stated: two runs on the same input give results equal in every field, also for
  a \<^verbatim>\<open>.webm\<close> upload. The field \<^verbatim>\<open>video_file\<close> of a converted upload is the name that
  \<^verbatim>\<open>mkstemp\<close> allocates (line 138), and the first run keeps its converted file: the second
  run of the same request, with the same collaborators, gets another name.
\<close>

theorem rerun_of_webm_upload_changes_video_file:
  "status_of (process_video_complete env_ok webm_request empty_world) = Some 200
   \<and> field_of (process_video_complete env_ok webm_request empty_world) ''video_file''
       = Some (JStr ''tmp0.mp4'')
   \<and> status_of (process_video_complete env_ok webm_request
         (snd (process_video_complete env_ok webm_request empty_world))) = Some 200
   \<and> field_of (process_video_complete env_ok webm_request
         (snd (process_video_complete env_ok webm_request empty_world))) ''video_file''
       = Some (JStr ''tmp1.mp4'')"
proof -
  from second_run_webm obtain body w' where
    "process_video_complete env_ok webm_request
       (snd (process_video_complete env_ok webm_request empty_world)) = (Inr (body, 200), w')"
    and "body ''video_file'' = Some (JStr ''tmp1.mp4'')"
    by blast
  then show ?thesis
    by (simp add: status_of_def field_of_def first_run_webm)
qed

section \<open>When the normaliser runs\<close>

lemma os_remove_events: "events (snd (os_remove env p w)) = events w"
  by (simp add: os_remove_def)

lemma remove_quietly_events: "events (remove_quietly env p w) = events w"
  by (simp add: remove_quietly_def os_remove_events)

lemma finish_events: "events (snd (finish env fp orig r w)) = events w"
  by (simp add: finish_def Let_def remove_quietly_events)

lemma handle_fault_events: "events (snd (handle_fault env e fname fp orig w)) = events w"
  by (simp add: handle_fault_def Let_def remove_quietly_events)

lemma gemini_stage_events:
  "\<exists>es. events (snd (gemini_stage env q t a v r w)) = events w @ es
     \<and> list_all (stage_event fp) es"
  by (simp add: gemini_stage_def log_event_def Let_def split: sum.splits option.splits)

lemma analyze_and_finish_events:
  "\<exists>es. events (snd (analyze_and_finish env q fp orig t r w)) = events w @ es
     \<and> list_all (stage_event fp) es"
proof (cases "analyze_audio_features env (OUTPUT_AUDIO_FILENAME env) t")
  case (Inl e)
  then show ?thesis by (simp add: analyze_and_finish_def log_event_def Let_def)
next
  case am: (Inr audio_metrics)
  show ?thesis
  proof (cases "analyze_video_features env fp")
    case (Inl e)
    with am show ?thesis by (simp add: analyze_and_finish_def log_event_def Let_def)
  next
    case vm: (Inr video_metrics)
    show ?thesis
    proof (cases "format_video_metrics env video_metrics")
      case (Inl e)
      with am vm show ?thesis by (simp add: analyze_and_finish_def log_event_def Let_def)
    next
      case fv: (Inr video_metrics_str)
      define r2 where "r2 = (case video_metrics of
            None \<Rightarrow> (case audio_metrics of
                        None \<Rightarrow> r
                      | Some kvs \<Rightarrow> if kvs \<noteq> [] then r(''audio_metrics'' \<mapsto> JDict kvs) else r)
          | Some kvs \<Rightarrow>
              if kvs \<noteq> [] \<and> ''error'' \<notin> fst ` set kvs
              then (case audio_metrics of
                        None \<Rightarrow> r
                      | Some kvs \<Rightarrow> if kvs \<noteq> [] then r(''audio_metrics'' \<mapsto> JDict kvs) else r)
                   (''video_metrics'' \<mapsto> JDict kvs)
              else (case audio_metrics of
                        None \<Rightarrow> r
                      | Some kvs \<Rightarrow> if kvs \<noteq> [] then r(''audio_metrics'' \<mapsto> JDict kvs) else r))"
      define w2 where "w2 = log_event (AnalyzeVideo fp)
          (log_event (AnalyzeAudio (OUTPUT_AUDIO_FILENAME env) t) w)"
      obtain g w3 where g: "gemini_stage env q t (format_audio_metrics env audio_metrics)
          video_metrics_str r2 w2 = (g, w3)" by (cases "gemini_stage env q t
            (format_audio_metrics env audio_metrics) video_metrics_str r2 w2")
      from gemini_stage_events [of env q t "format_audio_metrics env audio_metrics"
          video_metrics_str r2 w2 fp] g
      obtain es where es: "events w3 = events w2 @ es" "list_all (stage_event fp) es" by auto
      have "events (snd (analyze_and_finish env q fp orig t r w)) = events w3"
        using am vm fv g
        by (cases g) (simp_all add: analyze_and_finish_def Let_def r2_def w2_def finish_events)
      with es show ?thesis by (simp add: w2_def log_event_def)
    qed
  qed
qed


lemma process_stages_events:
  "\<exists>es. events (snd (process_stages env q fname fp orig w)) = events w @ es
     \<and> list_all (stage_event fp) es"
proof (cases "extract_audio env fp (OUTPUT_AUDIO_FILENAME env)")
  case (Inl e)
  then show ?thesis by (simp add: process_stages_def log_event_def Let_def)
next
  case ok: (Inr ok)
  show ?thesis
  proof (cases ok)
    case False
    with ok show ?thesis by (simp add: process_stages_def log_event_def Let_def)
  next
    case True
    show ?thesis
    proof (cases "transcribe_audio env (OUTPUT_AUDIO_FILENAME env)")
      case (Inl e)
      with ok True show ?thesis by (simp add: process_stages_def log_event_def Let_def)
    next
      case tr: (Inr transcript)
      show ?thesis
      proof (cases transcript)
        case None
        with ok True tr show ?thesis
          by (simp add: process_stages_def log_event_def Let_def os_remove_def
              split: prod.splits sum.splits)
      next
        case (Some t)
        define w2 where "w2 = log_event (Transcribe (OUTPUT_AUDIO_FILENAME env))
          (log_event (ExtractAudio fp (OUTPUT_AUDIO_FILENAME env))
            (w\<lparr>files := extract_audio_effect env fp (OUTPUT_AUDIO_FILENAME env) (files w)\<rparr>))"
        define r where "r = [''video_file'' \<mapsto> JStr fname, ''interview_question'' \<mapsto> JStr q,
          ''status'' \<mapsto> JStr ''processing'', ''transcript'' \<mapsto> JStr t]"
        from analyze_and_finish_events [of env q fp orig t r w2]
        obtain es where es: "events (snd (analyze_and_finish env q fp orig t r w2)) = events w2 @ es"
          "list_all (stage_event fp) es" by blast
        have "process_stages env q fname fp orig w = analyze_and_finish env q fp orig t r w2"
          using ok True tr Some by (simp add: process_stages_def Let_def w2_def r_def)
        with es show ?thesis by (simp add: w2_def log_event_def)
      qed
    qed
  qed
qed

lemma run_pipeline_events:
  "\<exists>es. events (snd (run_pipeline env q fname fp orig w)) = events w @ es
     \<and> list_all (stage_event fp) es"
proof -
  from process_stages_events [of env q fname fp orig w]
  obtain es where es: "events (snd (process_stages env q fname fp orig w)) = events w @ es"
    "list_all (stage_event fp) es" by blast
  have "events (snd (run_pipeline env q fname fp orig w))
      = events (snd (process_stages env q fname fp orig w))"
    by (simp add: run_pipeline_def handle_fault_events split: prod.splits sum.splits)
  with es show ?thesis by simp
qed

lemma convert_events:
  "\<exists>rest. events (snd (convert_webm_to_mp4 env p w)) = events w @ ConvertCalled p # rest"
  by (simp add: convert_defs Let_def split: sum.splits prod.splits)

lemma endswith_last:
  assumes "endswith s suf" and "suf \<noteq> []"
  shows "last s = last suf"
proof -
  from assms have len: "length s - length suf < length s"
    by (cases s) (auto simp add: endswith_def)
  from assms(1) have "last suf = last (drop (length s - length suf) s)"
    by (simp add: endswith_def)
  also from len have "\<dots> = last s" by (rule last_drop)
  finally show ?thesis by simp
qed

lemma other_extension_not_webm:
  assumes "ext \<in> ALLOWED_EXTENSIONS" and "ext \<noteq> ''webm''" and "endswith s (''.'' @ ext)"
  shows "\<not> endswith s ''.webm''"
proof
  assume "endswith s ''.webm''"
  then have "last s = CHR ''m''" by (auto dest: endswith_last)
  moreover from assms(3) have "last s = last (''.'' @ ext)" by (auto dest: endswith_last)
  moreover from assms(1,2) have "last (''.'' @ ext) \<noteq> CHR ''m''"
    by (auto simp add: ALLOWED_EXTENSIONS_def)
  ultimately show False by simp
qed


lemma stage_event_not_convert:
  "list_all (stage_event fp) es \<Longrightarrow> ConvertCalled p \<notin> set es"
  by (induction es) auto

lemma gemini_stage_appends:
  "gemini_stage env q t a v r w = (g, w') \<Longrightarrow> \<exists>es. events w' = events w @ es"
  using gemini_stage_events [of env q t a v r w undefined] by auto

lemma analyze_and_finish_video_call:
  assumes "analyze_and_finish env q fp orig t r w = (Inr resp, w')"
  shows "AnalyzeVideo fp \<in> set (new_events w w')"
proof -
  from assms have "\<exists>g r2 a v w3.
      gemini_stage env q t a v r2
          (log_event (AnalyzeVideo fp) (log_event (AnalyzeAudio (OUTPUT_AUDIO_FILENAME env) t) w))
        = (g, w3)
      \<and> (\<exists>r3. finish env fp orig r3 w3 = (Inr resp, w'))"
    apply (auto simp add: analyze_and_finish_def Let_def split: sum.splits prod.splits)
    apply blast
    done
  then obtain g r2 a v w3 where
    g: "gemini_stage env q t a v r2
          (log_event (AnalyzeVideo fp) (log_event (AnalyzeAudio (OUTPUT_AUDIO_FILENAME env) t) w))
        = (g, w3)"
    and fin: "\<exists>r3. finish env fp orig r3 w3 = (Inr resp, w')"
    by blast
  from fin obtain r3 where "finish env fp orig r3 w3 = (Inr resp, w')" by blast
  then have "events w' = events w3" using finish_events [of env fp orig r3 w3] by simp
  moreover from gemini_stage_appends [OF g] obtain es where
    "events w3 = events w @ [AnalyzeAudio (OUTPUT_AUDIO_FILENAME env) t, AnalyzeVideo fp] @ es"
    by (auto simp add: log_event_def)
  ultimately show ?thesis by (simp add: new_events_def)
qed

lemma process_stages_calls:
  "\<exists>rest. new_events w (snd (process_stages env q fname fp orig w))
       = ExtractAudio fp (OUTPUT_AUDIO_FILENAME env) # rest
     \<and> list_all (stage_event fp) rest
     \<and> ((\<exists>body. fst (process_stages env q fname fp orig w) = Inr (body, 200))
          \<longrightarrow> AnalyzeVideo fp \<in> set rest)"
proof (cases "extract_audio env fp (OUTPUT_AUDIO_FILENAME env)")
  case (Inl e)
  then show ?thesis by (simp add: process_stages_def log_event_def new_events_def Let_def)
next
  case ok: (Inr ok)
  show ?thesis
  proof (cases ok)
    case False
    with ok show ?thesis by (simp add: process_stages_def log_event_def new_events_def Let_def)
  next
    case True
    show ?thesis
    proof (cases "transcribe_audio env (OUTPUT_AUDIO_FILENAME env)")
      case (Inl e)
      with ok True show ?thesis
        by (simp add: process_stages_def log_event_def new_events_def Let_def)
    next
      case tr: (Inr transcript)
      show ?thesis
      proof (cases transcript)
        case None
        with ok True tr show ?thesis
          by (simp add: process_stages_def log_event_def new_events_def Let_def os_remove_def
              split: prod.splits sum.splits)
      next
        case (Some t)
        define w2 where "w2 = log_event (Transcribe (OUTPUT_AUDIO_FILENAME env))
          (log_event (ExtractAudio fp (OUTPUT_AUDIO_FILENAME env))
            (w\<lparr>files := extract_audio_effect env fp (OUTPUT_AUDIO_FILENAME env) (files w)\<rparr>))"
        define r where "r = [''video_file'' \<mapsto> JStr fname, ''interview_question'' \<mapsto> JStr q,
          ''status'' \<mapsto> JStr ''processing'', ''transcript'' \<mapsto> JStr t]"
        have w2: "events w2 = events w @ [ExtractAudio fp (OUTPUT_AUDIO_FILENAME env),
            Transcribe (OUTPUT_AUDIO_FILENAME env)]"
          by (simp add: w2_def log_event_def)
        have eq: "process_stages env q fname fp orig w = analyze_and_finish env q fp orig t r w2"
          using ok True tr Some by (simp add: process_stages_def Let_def w2_def r_def)
        from analyze_and_finish_events [of env q fp orig t r w2]
        obtain es where es: "events (snd (analyze_and_finish env q fp orig t r w2)) = events w2 @ es"
          "list_all (stage_event fp) es" by blast
        have video: "AnalyzeVideo fp \<in> set es"
          if "fst (analyze_and_finish env q fp orig t r w2) = Inr (body, 200)" for body
        proof -
          from that have "analyze_and_finish env q fp orig t r w2
              = (Inr (body, 200), snd (analyze_and_finish env q fp orig t r w2))"
            by (simp add: prod_eq_iff)
          from analyze_and_finish_video_call [OF this] es(1) show ?thesis
            by (simp add: new_events_def)
        qed
        from eq es w2 video show ?thesis
          by (auto simp add: new_events_def)
      qed
    qed
  qed
qed

lemma run_pipeline_calls:
  "\<exists>rest. new_events w (snd (run_pipeline env q fname fp orig w))
       = ExtractAudio fp (OUTPUT_AUDIO_FILENAME env) # rest
     \<and> list_all (stage_event fp) rest
     \<and> (status_of (run_pipeline env q fname fp orig w) = Some 200
          \<longrightarrow> AnalyzeVideo fp \<in> set rest)"
proof -
  have ev: "events (snd (run_pipeline env q fname fp orig w))
      = events (snd (process_stages env q fname fp orig w))"
    by (simp add: run_pipeline_def handle_fault_events split: prod.splits sum.splits)
  have st: "\<exists>body. fst (process_stages env q fname fp orig w) = Inr (body, 200)"
    if "status_of (run_pipeline env q fname fp orig w) = Some 200"
    using that
    by (auto simp add: status_of_def run_pipeline_def handle_fault_def Let_def
        split: prod.splits sum.splits)
  from process_stages_calls [of w env q fname fp orig] ev st show ?thesis
    by (auto simp add: new_events_def)
qed


text \<open>
  C10. For a request that passes validation, the normaliser is called if and only if the
  sanitised filename, in lower case, ends with \<^verbatim>\<open>.webm\<close>. When that name does not end with
  \<^verbatim>\<open>.webm\<close>, in particular when it ends with another allowed extension, the handler is the
  pipeline run on the saved upload (the file path and the original file path are both the
  saved path, on the world as the save left it). The first call it makes is the audio
  extraction on the saved path, every later call is a stage call on the saved path (the
  encoder does not run), and a run that ends with the success response has handed the saved
  path to the video analysis.
\<close>

theorem normalisation_runs_iff_webm:
  assumes "video req = Some up" and "filename up = Some raw"
    and "raw \<noteq> []" and "allowed_file raw"
    and "interview_question req = Some q" and "q \<noteq> []"
    and "fname = secure_filename env raw" and "saved = os_path_join UPLOAD_FOLDER fname"
    and "w' = snd (process_video_complete env req w)"
  shows "((\<exists>p. ConvertCalled p \<in> set (new_events w w')) \<longleftrightarrow> endswith (lower fname) ''.webm'')
     \<and> (\<not> endswith (lower fname) ''.webm'' \<longrightarrow>
          process_video_complete env req w
            = run_pipeline env q fname saved saved (file_save saved (content up) w)
          \<and> (\<exists>rest. new_events w w' = ExtractAudio saved (OUTPUT_AUDIO_FILENAME env) # rest
                \<and> list_all (stage_event saved) rest
                \<and> (status_of (process_video_complete env req w) = Some 200
                     \<longrightarrow> AnalyzeVideo saved \<in> set rest)))
     \<and> (\<forall>ext \<in> ALLOWED_EXTENSIONS - {''webm''}. endswith (lower fname) (''.'' @ ext) \<longrightarrow>
          process_video_complete env req w
            = run_pipeline env q fname saved saved (file_save saved (content up) w)
          \<and> (\<exists>rest. new_events w w' = ExtractAudio saved (OUTPUT_AUDIO_FILENAME env) # rest
                \<and> list_all (stage_event saved) rest
                \<and> (status_of (process_video_complete env req w) = Some 200
                     \<longrightarrow> AnalyzeVideo saved \<in> set rest)))"
proof -
  let ?w1 = "file_save saved (content up) w"
  let ?P = "process_video_complete env req w = run_pipeline env q fname saved saved ?w1
          \<and> (\<exists>rest. new_events w w' = ExtractAudio saved (OUTPUT_AUDIO_FILENAME env) # rest
                \<and> list_all (stage_event saved) rest
                \<and> (status_of (process_video_complete env req w) = Some 200
                     \<longrightarrow> AnalyzeVideo saved \<in> set rest))"
  have w1: "events ?w1 = events w" by (simp add: file_save_def)
  have plain: ?P if "\<not> endswith (lower fname) ''.webm''"
  proof -
    from that assms have run: "process_video_complete env req w
        = run_pipeline env q fname saved saved ?w1"
      by (simp add: process_video_complete_def Let_def)
    from w1 have "new_events w v = new_events ?w1 v" for v by (simp add: new_events_def)
    with run_pipeline_calls [of ?w1 env q fname saved saved] run assms(9)
    show ?thesis by simp
  qed
  have converted: "\<exists>rest. events w' = events w @ ConvertCalled saved # rest"
    if webm: "endswith (lower fname) ''.webm''"
  proof -
    obtain r w2 where conv: "convert_webm_to_mp4 env saved ?w1 = (r, w2)"
      by (cases "convert_webm_to_mp4 env saved ?w1")
    from convert_events [of env saved ?w1] conv w1 obtain rest where
      w2: "events w2 = events w @ ConvertCalled saved # rest" by auto
    show ?thesis
    proof (cases "\<exists>mp4. r = Inr (Some mp4) \<and> mp4 \<noteq> []")
      case True
      then obtain mp4 where r: "r = Inr (Some mp4)" "mp4 \<noteq> []" by blast
      with webm assms conv have "w' = snd (run_pipeline env q (os_path_basename mp4) mp4 saved w2)"
        by (simp add: process_video_complete_def Let_def)
      with run_pipeline_events [of env q "os_path_basename mp4" mp4 saved w2] w2
      show ?thesis by auto
    next
      case False
      with webm assms conv have "w' = w2"
        by (auto simp add: process_video_complete_def Let_def split: sum.splits option.splits)
      with w2 show ?thesis by simp
    qed
  qed
  have none: "ConvertCalled p \<notin> set (new_events w w')"
    if "\<not> endswith (lower fname) ''.webm''" for p
  proof -
    from plain [OF that] obtain rest where
      "new_events w w' = ExtractAudio saved (OUTPUT_AUDIO_FILENAME env) # rest"
      "list_all (stage_event saved) rest" by blast
    then show ?thesis using stage_event_not_convert [of saved rest p] by simp
  qed
  have iff: "(\<exists>p. ConvertCalled p \<in> set (new_events w w')) \<longleftrightarrow> endswith (lower fname) ''.webm''"
  proof
    assume "\<exists>p. ConvertCalled p \<in> set (new_events w w')"
    then show "endswith (lower fname) ''.webm''" using none by blast
  next
    assume "endswith (lower fname) ''.webm''"
    from converted [OF this] show "\<exists>p. ConvertCalled p \<in> set (new_events w w')"
      by (auto simp add: new_events_def)
  qed
  have "\<forall>ext \<in> ALLOWED_EXTENSIONS - {''webm''}. endswith (lower fname) (''.'' @ ext) \<longrightarrow> ?P"
    using plain other_extension_not_webm by blast
  with iff plain show ?thesis by blast
qed

lemma mp4_ending: "endswith (lower ''talk.mp4'') ''.mp4''"
  by code_simp

lemma status_ok_mp4:
  "status_of (process_video_complete env_ok mp4_request empty_world) = Some 200"
  by (simp add: status_of_def eval_ok)

theorem normalisation_runs_iff_webm_witness:
  "endswith (lower (secure_filename env_ok ''talk.webm'')) ''.webm''
   \<and> (\<exists>p. ConvertCalled p
         \<in> set (new_events empty_world
                  (snd (process_video_complete env_ok webm_request empty_world))))
   \<and> ''mp4'' \<in> ALLOWED_EXTENSIONS - {''webm''}
   \<and> endswith (lower (secure_filename env_ok ''talk.mp4'')) ''.mp4''
   \<and> process_video_complete env_ok mp4_request empty_world
       = run_pipeline env_ok ''Describe your experience'' ''talk.mp4'' ''uploads/talk.mp4''
           ''uploads/talk.mp4'' (file_save ''uploads/talk.mp4'' ''mp4-data'' empty_world)
   \<and> (\<exists>rest. new_events empty_world
                (snd (process_video_complete env_ok mp4_request empty_world))
              = ExtractAudio ''uploads/talk.mp4'' ''extracted_audio.wav'' # rest
         \<and> list_all (stage_event ''uploads/talk.mp4'') rest
         \<and> AnalyzeVideo ''uploads/talk.mp4'' \<in> set rest)"
proof -
  let ?q = "''Describe your experience''"
  let ?webm = "\<lparr> filename = Some ''talk.webm'', content = ''webm-data'' \<rparr>"
  let ?mp4 = "\<lparr> filename = Some ''talk.mp4'', content = ''mp4-data'' \<rparr>"
  have webm: "endswith (lower (secure_filename env_ok ''talk.webm'')) ''.webm''"
    by (simp add: env_ok_simps names_webm)
  have ext: "''mp4'' \<in> ALLOWED_EXTENSIONS - {''webm''}"
    by (simp add: ALLOWED_EXTENSIONS_def)
  have mp4: "endswith (lower (secure_filename env_ok ''talk.mp4'')) (''.'' @ ''mp4'')"
    by (simp add: env_ok_simps mp4_ending)
  have q: "?q \<noteq> []" by simp
  have w1: "video webm_request = Some ?webm" and w2: "filename ?webm = Some ''talk.webm''"
    and w3: "''talk.webm'' \<noteq> []" and w5: "interview_question webm_request = Some ?q"
    by (simp_all add: webm_request_def)
  have m1: "video mp4_request = Some ?mp4" and m2: "filename ?mp4 = Some ''talk.mp4''"
    and m3: "''talk.mp4'' \<noteq> []" and m5: "interview_question mp4_request = Some ?q"
    by (simp_all add: mp4_request_def)
  note for_webm = normalisation_runs_iff_webm
    [where env = env_ok and w = empty_world, OF w1 w2 w3 names_webm(1) w5 q refl refl refl]
  note for_mp4 = normalisation_runs_iff_webm
    [where env = env_ok and w = empty_world, OF m1 m2 m3 names_mp4(1) m5 q refl refl refl]
  from for_webm webm have a: "\<exists>p. ConvertCalled p
         \<in> set (new_events empty_world
                  (snd (process_video_complete env_ok webm_request empty_world)))"
    by blast
  let ?saved = "os_path_join UPLOAD_FOLDER (secure_filename env_ok ''talk.mp4'')"
  from for_mp4 ext mp4 status_ok_mp4
  have b: "process_video_complete env_ok mp4_request empty_world
            = run_pipeline env_ok ?q (secure_filename env_ok ''talk.mp4'') ?saved ?saved
                (file_save ?saved (content ?mp4) empty_world)
          \<and> (\<exists>rest. new_events empty_world
                   (snd (process_video_complete env_ok mp4_request empty_world))
                 = ExtractAudio ?saved (OUTPUT_AUDIO_FILENAME env_ok) # rest
               \<and> list_all (stage_event ?saved) rest
               \<and> AnalyzeVideo ?saved \<in> set rest)"
    by blast
  have names: "secure_filename env_ok ''talk.mp4'' = ''talk.mp4''"
    "os_path_join UPLOAD_FOLDER ''talk.mp4'' = ''uploads/talk.mp4''"
    "content ?mp4 = ''mp4-data''"
    "OUTPUT_AUDIO_FILENAME env_ok = ''extracted_audio.wav''"
    by (simp_all add: env_ok_simps names_mp4)
  from b have b': "process_video_complete env_ok mp4_request empty_world
       = run_pipeline env_ok ?q ''talk.mp4'' ''uploads/talk.mp4''
           ''uploads/talk.mp4'' (file_save ''uploads/talk.mp4'' ''mp4-data'' empty_world)
     \<and> (\<exists>rest. new_events empty_world
                (snd (process_video_complete env_ok mp4_request empty_world))
              = ExtractAudio ''uploads/talk.mp4'' ''extracted_audio.wav'' # rest
         \<and> list_all (stage_event ''uploads/talk.mp4'') rest
         \<and> AnalyzeVideo ''uploads/talk.mp4'' \<in> set rest)"
    unfolding names .
  from mp4 have mp4': "endswith (lower (secure_filename env_ok ''talk.mp4'')) ''.mp4''"
    by simp
  from webm a ext mp4' b' show ?thesis by blast
qed

end
